theory Spec2Isabelle
  imports Main
begin

section \<open>Python strings\<close>

text \<open>
  A Python \<open>str\<close> is modelled as a \<^typ>\<open>string\<close>; every \<^typ>\<open>char\<close> stands for one
  code point in the range U+0000 .. U+00FF, so \<^const>\<open>length\<close> counts code points as
  \<open>len\<close> does. The character classes below are the classes of CPython 3.11
  (\<open>str.isspace\<close>, and \<open>\d\<close>, \<open>\w\<close>, \<open>\s\<close>, \<open>.\<close> of the module \<open>re\<close> on \<open>str\<close>
  patterns) restricted to that range.
\<close>

definition code :: "char \<Rightarrow> int" where
  \<comment> \<open>\<open>ord(c)\<close>\<close>
  "code c = of_char c"

definition py_isspace :: "char \<Rightarrow> bool" where
  \<comment> \<open>\<open>str.isspace\<close> on one character: TAB..CR, FS..US, SPACE, NEL, NBSP.\<close>
  "py_isspace c =
     ((9 \<le> code c \<and> code c \<le> 13) \<or> (28 \<le> code c \<and> code c \<le> 32)
      \<or> code c = 133 \<or> code c = 160)"

definition lstrip :: "string \<Rightarrow> string" where
  "lstrip s = dropWhile py_isspace s"

definition rstrip :: "string \<Rightarrow> string" where
  "rstrip s = rev (dropWhile py_isspace (rev s))"

definition strip :: "string \<Rightarrow> string" where
  \<comment> \<open>\<open>s.strip()\<close>: whitespace removed at both ends.\<close>
  "strip s = rstrip (lstrip s)"

definition str_remove :: "char \<Rightarrow> string \<Rightarrow> string" where
  \<comment> \<open>\<open>s.replace(c, '')\<close> for a one-character \<open>c\<close>: every occurrence is dropped.\<close>
  "str_remove c s = filter (\<lambda>x. x \<noteq> c) s"

definition contains_char :: "char \<Rightarrow> string \<Rightarrow> bool" where
  \<comment> \<open>\<open>c in s\<close> for a one-character \<open>c\<close>.\<close>
  "contains_char c s = (c \<in> set s)"

fun split_on :: "char \<Rightarrow> string \<Rightarrow> string list" where
  \<comment> \<open>\<open>s.split(sep)\<close> for a one-character \<open>sep\<close>: one piece more than separators.\<close>
  "split_on sep [] = [[]]"
| "split_on sep (c # cs) =
     (if c = sep then [] # split_on sep cs
      else (case split_on sep cs of p # ps \<Rightarrow> (c # p) # ps | [] \<Rightarrow> [[c]]))"

definition partition_on :: "char \<Rightarrow> string \<Rightarrow> string \<times> string \<times> string" where
  \<comment> \<open>\<open>s.partition(sep)\<close>: text before the first \<open>sep\<close>, the separator found (or
     empty), text after it.\<close>
  "partition_on sep s =
     (case dropWhile (\<lambda>c. c \<noteq> sep) s of
        [] \<Rightarrow> (s, [], [])
      | c # after \<Rightarrow> (takeWhile (\<lambda>c. c \<noteq> sep) s, [c], after))"

text \<open>
  An exception that leaves a function is a value: a function that can raise returns
  \<open>Inl\<close> of the exception, or \<open>Inr\<close> of its result.
\<close>

datatype py_error = IndexError | ValueError

section \<open>The standard module ipaddress\<close>

text \<open>
  \<open>utils.validate_ip_address\<close> and \<open>utils.get_ip_geolocation\<close> call
  \<open>ipaddress.ip_address\<close> on a \<open>str\<close>. The functions below follow
  \<open>Lib/ipaddress.py\<close> of CPython 3.11 for that argument type. \<open>AddressValueError\<close>
  (a \<open>ValueError\<close>) is the only exception these paths raise; it is the result \<open>None\<close>.
\<close>

definition is_ascii_digit :: "char \<Rightarrow> bool" where
  "is_ascii_digit c = (48 \<le> code c \<and> code c \<le> 57)"

definition int_base10 :: "string \<Rightarrow> int" where
  \<comment> \<open>\<open>int(s, 10)\<close> on a non-empty string of ASCII digits.\<close>
  "int_base10 s = foldl (\<lambda>a c. 10 * a + (code c - 48)) 0 s"

definition parse_octet :: "string \<Rightarrow> int option" where
  "parse_octet octet_str =
     (if octet_str = [] then None
      else if \<not> list_all is_ascii_digit octet_str then None
      else if length octet_str > 3 then None
      else if octet_str \<noteq> ''0'' \<and> hd octet_str = CHR ''0'' then None
      else if int_base10 octet_str > 255 then None
      else Some (int_base10 octet_str))"

definition from_bytes_big :: "int list \<Rightarrow> int" where
  "from_bytes_big bs = foldl (\<lambda>a b. 256 * a + b) 0 bs"

definition ipv4_int_from_string :: "string \<Rightarrow> int option" where
  "ipv4_int_from_string ip_str =
     (if ip_str = [] then None
      else let octets = split_on (CHR ''.'') ip_str in
        if length octets \<noteq> 4 then None
        else map_option from_bytes_big (those (map parse_octet octets)))"

definition IPv4Address :: "string \<Rightarrow> int option" where
  "IPv4Address addr_str =
     (if contains_char (CHR ''/'') addr_str then None else ipv4_int_from_string addr_str)"

definition hex_value :: "char \<Rightarrow> int option" where
  "hex_value c =
     (if 48 \<le> code c \<and> code c \<le> 57 then Some (code c - 48)
      else if 65 \<le> code c \<and> code c \<le> 70 then Some (code c - 55)
      else if 97 \<le> code c \<and> code c \<le> 102 then Some (code c - 87)
      else None)"

definition is_hex_digit :: "char \<Rightarrow> bool" where
  \<comment> \<open>membership in \<open>_HEX_DIGITS = frozenset('0123456789ABCDEFabcdef')\<close>\<close>
  "is_hex_digit c = (hex_value c \<noteq> None)"

definition int_base16 :: "string \<Rightarrow> int" where
  \<comment> \<open>\<open>int(s, 16)\<close> on a non-empty string of hexadecimal digits.\<close>
  "int_base16 s = foldl (\<lambda>a c. 16 * a + (case hex_value c of Some v \<Rightarrow> v | None \<Rightarrow> 0)) 0 s"

definition parse_hextet :: "string \<Rightarrow> int option" where
  \<comment> \<open>The empty string passes both checks and fails in \<open>int('', 16)\<close>.\<close>
  "parse_hextet hextet_str =
     (if \<not> list_all is_hex_digit hextet_str then None
      else if length hextet_str > 4 then None
      else if hextet_str = [] then None
      else Some (int_base16 hextet_str))"

definition hex_digit :: "int \<Rightarrow> char" where
  "hex_digit d = (if d < 10 then char_of (48 + d) else char_of (87 + d))"

function format_hex :: "int \<Rightarrow> string" where
  \<comment> \<open>\<open>'%x' % n\<close> for \<open>n \<ge> 0\<close>; both calls pass a value masked with \<open>0xFFFF\<close>.\<close>
  "format_hex n = (if n < 16 then [hex_digit n] else format_hex (n div 16) @ [hex_digit (n mod 16)])"
  by pat_completeness auto
termination
  by (relation "measure nat") auto

declare format_hex.simps [simp del]

definition split_scope_id :: "string \<Rightarrow> (string \<times> string option) option" where
  "split_scope_id ip_str =
     (case partition_on (CHR ''%'') ip_str of (addr, sep, scope_id) \<Rightarrow>
        if sep = [] then Some (addr, None)
        else if scope_id = [] \<or> contains_char (CHR ''%'') scope_id then None
        else Some (addr, Some scope_id))"

definition v4_suffix :: "string list \<Rightarrow> string list option" where
  \<comment> \<open>An IPv4-style last part is replaced by its two hextets.\<close>
  "v4_suffix parts =
     (if contains_char (CHR ''.'') (last parts) then
        (case IPv4Address (last parts) of
           None \<Rightarrow> None
         | Some ipv4_int \<Rightarrow>
             Some (butlast parts @ [format_hex ((ipv4_int div 65536) mod 65536),
                                    format_hex (ipv4_int mod 65536)]))
      else Some parts)"

definition parse_hextets :: "string list \<Rightarrow> int \<Rightarrow> int option" where
  \<comment> \<open>\<open>ip_int <<= 16; ip_int |= _parse_hextet(p)\<close> for each part in turn.\<close>
  "parse_hextets ps ip_int =
     map_option (foldl (\<lambda>a h. 65536 * a + h) ip_int) (those (map parse_hextet ps))"

definition ipv6_int_from_parts :: "string list \<Rightarrow> int option" where
  "ipv6_int_from_parts parts =
     (if length parts > 9 then None
      else let empties = filter (\<lambda>i. parts ! i = []) [1 ..< length parts - 1] in
        if length empties > 1 then None
        else (case empties of
          skip_index # _ \<Rightarrow>
            let parts_hi = (if hd parts = [] then skip_index - 1 else skip_index);
                parts_lo = (if last parts = [] then length parts - skip_index - 1 - 1
                            else length parts - skip_index - 1)
            in if hd parts = [] \<and> parts_hi \<noteq> 0 then None
               else if last parts = [] \<and> parts_lo \<noteq> 0 then None
               else if 8 - (int parts_hi + int parts_lo) < 1 then None
               else (case parse_hextets (take parts_hi parts) 0 of
                       None \<Rightarrow> None
                     | Some hi \<Rightarrow>
                         parse_hextets (drop (length parts - parts_lo) parts)
                           (hi * 2 ^ (16 * (8 - (parts_hi + parts_lo)))))
        | [] \<Rightarrow>
            if length parts \<noteq> 8 then None
            else if hd parts = [] then None
            else if last parts = [] then None
            else parse_hextets parts 0))"

definition ipv6_int_from_string :: "string \<Rightarrow> int option" where
  "ipv6_int_from_string ip_str =
     (if ip_str = [] then None
      else let parts = split_on (CHR '':'') ip_str in
        if length parts < 3 then None
        else (case v4_suffix parts of None \<Rightarrow> None | Some parts' \<Rightarrow> ipv6_int_from_parts parts'))"

definition IPv6Address :: "string \<Rightarrow> (int \<times> string option) option" where
  "IPv6Address addr_str =
     (if contains_char (CHR ''/'') addr_str then None
      else (case split_scope_id addr_str of
              None \<Rightarrow> None
            | Some (addr, scope_id) \<Rightarrow>
                map_option (\<lambda>ip. (ip, scope_id)) (ipv6_int_from_string addr)))"

datatype ip_addr = IPv4 int | IPv6 int "string option"

definition ipaddress_ip_address :: "string \<Rightarrow> ip_addr option" where
  \<comment> \<open>\<open>None\<close> is the \<open>ValueError\<close> raised when both constructors refuse the string.\<close>
  "ipaddress_ip_address address =
     (case IPv4Address address of
        Some ip \<Rightarrow> Some (IPv4 ip)
      | None \<Rightarrow> (case IPv6Address address of
                   Some (ip, scope_id) \<Rightarrow> Some (IPv6 ip scope_id)
                 | None \<Rightarrow> None))"

section \<open>utils.validate\_ip\_address\<close>

definition validate_ip_address :: "string \<Rightarrow> bool" where
  \<comment> \<open>\<open>try: ipaddress.ip_address(ip); return True; except ValueError: return False\<close>\<close>
  "validate_ip_address ip = (case ipaddress_ip_address ip of Some _ \<Rightarrow> True | None \<Rightarrow> False)"

section \<open>utils.sanitize\_input\<close>

definition dangerous_chars :: "char list" where
  \<comment> \<open>\<open>[';', '&', '|', '`', '$', '(', ')', '<', '>', '"', "'", '\\']\<close>\<close>
  "dangerous_chars =
     [CHR '';'', CHR ''&'', CHR ''|'', CHR ''`'', CHR ''$'', CHR ''('', CHR '')'',
      CHR ''<'', CHR ''>'', CHR 0x22, CHR 0x27, CHR 0x5C]"

definition sanitize_input :: "string \<Rightarrow> string" where
  \<comment> \<open>The \<open>for char in dangerous_chars\<close> loop is the left fold; \<open>strip()\<close> comes last.\<close>
  "sanitize_input input_str =
     strip (foldl (\<lambda>sanitized char. str_remove char sanitized) input_str dangerous_chars)"

section \<open>Running commands: utils.safe\_execute\_command\<close>

text \<open>
  \<open>subprocess.run\<close> is the boundary to the host. It is a parameter \<open>run\<close> of the model:
  given the argument vector and the state of the host it yields what \<open>subprocess.run\<close>
  did and the host's next state. The model keeps a log of every argument vector handed to
  \<open>subprocess.run\<close>, so that "no command was executed" is a statement about the log.
\<close>

datatype proc_outcome =
    Completed int string string   \<comment> \<open>\<open>returncode\<close>, \<open>stdout\<close>, \<open>stderr\<close>\<close>
  | TimeoutExpired
  | Raised string                 \<comment> \<open>any other exception \<open>e\<close>, with \<open>str(e)\<close>\<close>

type_synonym 'h runner = "string list \<Rightarrow> 'h \<Rightarrow> proc_outcome \<times> 'h"

record 'h system =
  issued :: "string list list"
  host :: 'h

definition safe_execute_command ::
  "'h runner \<Rightarrow> string list \<Rightarrow> 'h system \<Rightarrow> (bool \<times> string \<times> string) \<times> 'h system" where
  "safe_execute_command run command s =
     (case run command (host s) of (outcome, h') \<Rightarrow>
        ((case outcome of
            Completed returncode out err \<Rightarrow> (returncode = 0, out, err)
          | TimeoutExpired \<Rightarrow> (False, [], ''Command timed out'')
          | Raised e \<Rightarrow> (False, [], e)),
         s\<lparr>issued := issued s @ [command], host := h'\<rparr>))"

section \<open>fail2ban\_manager.Fail2banManager: ban and unban\<close>

definition client_path :: string where
  \<comment> \<open>\<open>config.FAIL2BAN_CLIENT_PATH\<close>\<close>
  "client_path = ''/usr/bin/fail2ban-client''"

function dec_digits :: "int \<Rightarrow> string" where
  "dec_digits n =
     (if n < 10 then [char_of (48 + n)] else dec_digits (n div 10) @ [char_of (48 + n mod 10)])"
  by pat_completeness auto
termination
  by (relation "measure nat") auto

declare dec_digits.simps [simp del]

definition long_to_decimal_string :: "int \<Rightarrow> string" where
  \<comment> \<open>The decimal text of an integer: a minus sign for a negative one, then the digits
     of its magnitude.\<close>
  "long_to_decimal_string n = (if n < 0 then CHR ''-'' # dec_digits (- n) else dec_digits n)"

definition max_str_digits :: nat where
  \<comment> \<open>\<open>sys.get_int_max_str_digits()\<close>, the default of CPython 3.11\<close>
  "max_str_digits = 4300"

definition py_str :: "int \<Rightarrow> py_error + string" where
  \<comment> \<open>\<open>str(n)\<close> of a Python \<open>int\<close>, and \<open>f"{n}"\<close>: the decimal text, or \<open>ValueError\<close> when
     it has more than \<open>max_str_digits\<close> digits (the sign is not counted).\<close>
  "py_str n =
     (let repr = long_to_decimal_string n;
          digits = length repr - (if n < 0 then 1 else 0)
      in if digits > max_str_digits then Inl ValueError else Inr repr)"

definition or_else :: "string \<Rightarrow> string \<Rightarrow> string" where
  \<comment> \<open>\<open>a or b\<close> on strings: the empty string is false.\<close>
  "or_else a b = (if a \<noteq> [] then a else b)"

definition ban_ip ::
  "'h runner \<Rightarrow> string \<Rightarrow> string \<Rightarrow> 'h system \<Rightarrow> (bool \<times> string) \<times> 'h system" where
  "ban_ip run jail_name ip_address s =
     (if \<not> validate_ip_address ip_address then ((False, ''Invalid IP address format''), s)
      else
        let jail_name = sanitize_input jail_name;
            ip_address = sanitize_input ip_address
        in (case safe_execute_command run
                   [client_path, ''set'', jail_name, ''banip'', ip_address] s of
              ((success, out, err), s') \<Rightarrow>
                if success then
                  ((True, ''Successfully banned '' @ ip_address @ '' in jail '' @ jail_name), s')
                else ((False, or_else err (''Failed to ban '' @ ip_address)), s')))"

definition ban_ip_with_time ::
  "'h runner \<Rightarrow> string \<Rightarrow> string \<Rightarrow> int \<Rightarrow> 'h system
     \<Rightarrow> (py_error + bool \<times> string) \<times> 'h system" where
  \<comment> \<open>\<open>str(ban_time)\<close> is evaluated while the argument list of the first command is built,
     outside any \<open>try\<close>: when it raises, the exception leaves the method and no command has
     been executed. \<open>Inl\<close> is the exception, \<open>Inr\<close> the returned pair.\<close>
  "ban_ip_with_time run jail_name ip_address ban_time s =
     (if \<not> validate_ip_address ip_address then (Inr (False, ''Invalid IP address format''), s)
      else
        let jail_name = sanitize_input jail_name;
            ip_address = sanitize_input ip_address
        in (case (if ban_time = - 1 then
                    (case safe_execute_command run
                            [client_path, ''set'', jail_name, ''bantime'', ''-1''] s of
                       (_, s1) \<Rightarrow> Inr (safe_execute_command run
                            [client_path, ''set'', jail_name, ''banip'', ip_address] s1))
                  else
                    (case py_str ban_time of
                       Inl e \<Rightarrow> Inl e
                     | Inr duration \<Rightarrow>
                         (case safe_execute_command run
                                 [client_path, ''set'', jail_name, ''bantime'', duration] s of
                            (_, s1) \<Rightarrow> Inr (safe_execute_command run
                                 [client_path, ''set'', jail_name, ''banip'', ip_address] s1)))) of
              Inl e \<Rightarrow> (Inl e, s)
            | Inr ((success, out, err), s2) \<Rightarrow>
                if success then
                  (if ban_time = - 1 then
                     (Inr (True, ''Successfully banned '' @ ip_address @ '' '' @ ''permanently''
                                 @ '' in jail '' @ jail_name), s2)
                   else
                     (case py_str ban_time of
                        Inl e \<Rightarrow> (Inl e, s2)
                      | Inr duration \<Rightarrow>
                          (Inr (True, ''Successfully banned '' @ ip_address @ '' ''
                                      @ (''for '' @ duration @ '' seconds'')
                                      @ '' in jail '' @ jail_name), s2)))
                else (Inr (False, or_else err (''Failed to ban '' @ ip_address)), s2)))"

definition unban_ip ::
  "'h runner \<Rightarrow> string \<Rightarrow> string \<Rightarrow> 'h system \<Rightarrow> (bool \<times> string) \<times> 'h system" where
  "unban_ip run jail_name ip_address s =
     (if \<not> validate_ip_address ip_address then ((False, ''Invalid IP address format''), s)
      else
        let jail_name = sanitize_input jail_name;
            ip_address = sanitize_input ip_address
        in (case safe_execute_command run
                   [client_path, ''set'', jail_name, ''unbanip'', ip_address] s of
              ((success, out, err), s') \<Rightarrow>
                if success then
                  ((True, ''Successfully unbanned '' @ ip_address @ '' from jail '' @ jail_name), s')
                else ((False, or_else err (''Failed to unban '' @ ip_address)), s')))"

subsection \<open>A reference enforcement back end\<close>

text \<open>
  The enforcement tool itself is outside the repository. For statements about what a
  command does to it, \<open>f2b_run\<close> is a small reference back end for the three \<open>set\<close>
  commands the manager issues: \<open>set <jail> bantime <v>\<close> stores \<open>v\<close> as the ban time of the
  jail, \<open>set <jail> banip <ip>\<close> records a ban of \<open>ip\<close> in the jail with the jail's ban time
  of that moment, \<open>set <jail> unbanip <ip>\<close> removes the bans of \<open>ip\<close> in the jail. Every
  other command fails with a non-zero return code.
\<close>

record f2b =
  bantime :: "string \<Rightarrow> string"
  bans :: "(string \<times> string \<times> string) list"   \<comment> \<open>jail, ip, ban time of the ban\<close>

definition f2b_run :: "f2b runner" where
  "f2b_run command h =
     (case command of
        [prog, verb, jail, key, v] \<Rightarrow>
          if verb = ''set'' \<and> key = ''bantime'' then
            (Completed 0 v [], h\<lparr>bantime := (bantime h)(jail := v)\<rparr>)
          else if verb = ''set'' \<and> key = ''banip'' then
            (Completed 0 ''1'' [], h\<lparr>bans := bans h @ [(jail, v, bantime h jail)]\<rparr>)
          else if verb = ''set'' \<and> key = ''unbanip'' then
            (Completed 0 ''1'' [],
             h\<lparr>bans := filter (\<lambda>(j, ip, t). \<not> (j = jail \<and> ip = v)) (bans h)\<rparr>)
          else (Completed 255 [] ''Invalid command'', h)
      | _ \<Rightarrow> (Completed 255 [] ''Invalid command'', h))"

definition f2b_init :: "f2b system" where
  \<comment> \<open>Nothing issued yet; every jail has ban time 600 and no bans.\<close>
  "f2b_init = \<lparr>issued = [], host = \<lparr>bantime = (\<lambda>jail. ''600''), bans = []\<rparr>\<rparr>"

section \<open>The standard module re, for the patterns of utils\<close>

text \<open>
  The patterns of \<open>utils.parse_log_line\<close> and \<open>utils.parse_ssh_log_line\<close> are sequences of
  literal text, greedy repetitions of one character class (\<open>\d{4}\<close>, \<open>\w+\<close>, \<open>.*\<close>), the
  optional literal \<open>(?:invalid user )?\<close>, and capturing groups that are not nested. A pattern
  is a list of such items. \<open>match_items\<close> lists the ways a pattern matches at the start of
  the input in the order in which the backtracking matcher of \<open>re\<close> tries them (a greedy
  repetition takes the longest stretch first and gives back one character at a time; a
  greedy optional part is tried present first), so the head of the list is the match \<open>re\<close>
  reports.
  \<open>re_search\<close> is \<open>re.search\<close>: the first match at the leftmost start position.
\<close>

datatype cclass = Digit | Word | Space | Dot

fun in_class :: "cclass \<Rightarrow> char \<Rightarrow> bool" where
  "in_class Digit c = (48 \<le> code c \<and> code c \<le> 57)"
| "in_class Word c =
     ((48 \<le> code c \<and> code c \<le> 57) \<or> (65 \<le> code c \<and> code c \<le> 90) \<or> code c = 95
      \<or> (97 \<le> code c \<and> code c \<le> 122) \<or> code c = 170 \<or> code c = 178 \<or> code c = 179
      \<or> code c = 181 \<or> code c = 185 \<or> code c = 186 \<or> (188 \<le> code c \<and> code c \<le> 190)
      \<or> (192 \<le> code c \<and> code c \<le> 214) \<or> (216 \<le> code c \<and> code c \<le> 246)
      \<or> (248 \<le> code c \<and> code c \<le> 255))"
| "in_class Space c = py_isspace c"
| "in_class Dot c = (c \<noteq> CHR 0x0A)"

datatype item =
    Lit string                    \<comment> \<open>literal text\<close>
  | Rep cclass nat "nat option"   \<comment> \<open>\<open>c{lo,hi}\<close>, greedy; no upper bound when \<open>None\<close>\<close>
  | Opt string                    \<comment> \<open>\<open>(?:text)?\<close>, greedy\<close>
  | GOpen                         \<comment> \<open>\<open>(\<close> of a capturing group\<close>
  | GClose                        \<comment> \<open>\<open>)\<close> of a capturing group\<close>

fun starts_with :: "string \<Rightarrow> string \<Rightarrow> bool" where
  \<comment> \<open>\<open>s.startswith(p)\<close>\<close>
  "starts_with [] s = True"
| "starts_with (p # ps) [] = False"
| "starts_with (p # ps) (c # cs) = (p = c \<and> starts_with ps cs)"

fun contains :: "string \<Rightarrow> string \<Rightarrow> bool" where
  \<comment> \<open>\<open>sub in s\<close>\<close>
  "contains sub [] = (sub = [])"
| "contains sub (c # cs) = (starts_with sub (c # cs) \<or> contains sub cs)"

text \<open>
  A matcher state: the input not yet consumed, the text consumed since the last \<open>(\<close>, and
  the texts of the groups closed so far.
\<close>

type_synonym mstate = "string \<times> string \<times> string list"

definition consume :: "nat \<Rightarrow> mstate \<Rightarrow> mstate" where
  "consume k st = (case st of (rest, cur, groups) \<Rightarrow> (drop k rest, cur @ take k rest, groups))"

fun match_item :: "item \<Rightarrow> mstate \<Rightarrow> mstate list" where
  "match_item (Lit l) (rest, cur, groups) =
     (if starts_with l rest then [consume (length l) (rest, cur, groups)] else [])"
| "match_item (Rep c lo hi) (rest, cur, groups) =
     (let n = length (takeWhile (in_class c) rest);
          m = (case hi of None \<Rightarrow> n | Some h \<Rightarrow> min n h)
      in map (\<lambda>k. consume k (rest, cur, groups)) (rev [lo ..< Suc m]))"
| "match_item (Opt l) (rest, cur, groups) =
     (if starts_with l rest then [consume (length l) (rest, cur, groups), (rest, cur, groups)]
      else [(rest, cur, groups)])"
| "match_item GOpen (rest, cur, groups) = [(rest, [], groups)]"
| "match_item GClose (rest, cur, groups) = [(rest, cur, groups @ [cur])]"

fun match_items :: "item list \<Rightarrow> mstate \<Rightarrow> mstate list" where
  "match_items [] st = [st]"
| "match_items (t # ts) st = concat (map (match_items ts) (match_item t st))"

fun re_search :: "item list \<Rightarrow> string \<Rightarrow> string list option" where
  \<comment> \<open>The groups of the match, or \<open>None\<close> when no start position matches.\<close>
  "re_search p [] = (case match_items p ([], [], []) of [] \<Rightarrow> None | (_, _, groups) # _ \<Rightarrow> Some groups)"
| "re_search p (c # cs) =
     (case match_items p (c # cs, [], []) of
        [] \<Rightarrow> re_search p cs
      | (_, _, groups) # _ \<Rightarrow> Some groups)"

definition group :: "string list \<Rightarrow> nat \<Rightarrow> py_error + string" where
  \<comment> \<open>\<open>match.group(i)\<close> for \<open>i \<ge> 1\<close>; a group the pattern does not have raises.\<close>
  "group groups i = (if 1 \<le> i \<and> i \<le> length groups then Inr (groups ! (i - 1)) else Inl IndexError)"

subsection \<open>Pattern fragments\<close>

definition digits :: "nat \<Rightarrow> item" where
  \<comment> \<open>\<open>\d{n}\<close>\<close>
  "digits n = Rep Digit n (Some n)"

definition some :: "cclass \<Rightarrow> item" where
  \<comment> \<open>\<open>c+\<close>\<close>
  "some c = Rep c 1 None"

definition any_text :: item where
  \<comment> \<open>\<open>.*\<close>\<close>
  "any_text = Rep Dot 0 None"

definition ts_fail2ban :: "item list" where
  \<comment> \<open>\<open>(\d{4}-\d{2}-\d{2} \d{2}:\d{2}:\d{2},\d{3})\<close>\<close>
  "ts_fail2ban =
     [GOpen, digits 4, Lit ''-'', digits 2, Lit ''-'', digits 2, Lit '' '',
      digits 2, Lit '':'', digits 2, Lit '':'', digits 2, Lit '','', digits 3, GClose]"

definition ts_syslog :: "item list" where
  \<comment> \<open>\<open>(\w{3}\s+\d{1,2}\s+\d{2}:\d{2}:\d{2})\<close>\<close>
  "ts_syslog =
     [GOpen, Rep Word 3 (Some 3), some Space, Rep Digit 1 (Some 2), some Space,
      digits 2, Lit '':'', digits 2, Lit '':'', digits 2, GClose]"

definition ts_iso :: "item list" where
  \<comment> \<open>\<open>(\d{4}-\d{2}-\d{2}T\d{2}:\d{2}:\d{2})\<close>\<close>
  "ts_iso =
     [GOpen, digits 4, Lit ''-'', digits 2, Lit ''-'', digits 2, Lit ''T'',
      digits 2, Lit '':'', digits 2, Lit '':'', digits 2, GClose]"

definition ip_group :: "item list" where
  \<comment> \<open>\<open>(\d+\.\d+\.\d+\.\d+)\<close>\<close>
  "ip_group =
     [GOpen, some Digit, Lit ''.'', some Digit, Lit ''.'', some Digit, Lit ''.'', some Digit,
      GClose]"

definition word_group :: "item list" where
  \<comment> \<open>\<open>(\w+)\<close>\<close>
  "word_group = [GOpen, some Word, GClose]"

section \<open>utils.parse\_log\_line\<close>

record ban_event =
  be_timestamp :: string
  be_jail :: string
  be_ip :: string
  be_action :: string
  be_raw_line :: string

definition ban_log_pattern :: "string \<Rightarrow> item list" where
  \<comment> \<open>\<open>(\d{4}-\d{2}-\d{2} \d{2}:\d{2}:\d{2},\d{3}).*\[(\w+)\] KEYWORD (\d+\.\d+\.\d+\.\d+)\<close>\<close>
  "ban_log_pattern keyword =
     (ts_fail2ban @ [any_text, Lit ''[''] @ word_group @ [Lit ('']'' @ '' '' @ keyword @ '' '')])
     @ ip_group @ []"

definition log_patterns :: "(string \<times> item list) list" where
  \<comment> \<open>The dict \<open>patterns\<close>, in insertion order.\<close>
  "log_patterns =
     [(''ban'', ban_log_pattern ''BAN''),
      (''unban'', ban_log_pattern ''UNBAN''),
      (''found'', ban_log_pattern ''Found'')]"

fun parse_log_line_loop :: "(string \<times> item list) list \<Rightarrow> string \<Rightarrow> py_error + ban_event option" where
  "parse_log_line_loop [] line = Inr None"
| "parse_log_line_loop ((action, pattern) # others) line =
     (case re_search pattern line of
        None \<Rightarrow> parse_log_line_loop others line
      | Some m \<Rightarrow>
          (case group m 1 of Inl e \<Rightarrow> Inl e | Inr g1 \<Rightarrow>
          (case group m 2 of Inl e \<Rightarrow> Inl e | Inr g2 \<Rightarrow>
          (case group m 3 of Inl e \<Rightarrow> Inl e | Inr g3 \<Rightarrow>
             Inr (Some \<lparr>be_timestamp = g1, be_jail = g2, be_ip = g3, be_action = action,
                        be_raw_line = line\<rparr>)))))"

definition parse_log_line :: "string \<Rightarrow> py_error + ban_event option" where
  "parse_log_line line = parse_log_line_loop log_patterns line"

section \<open>utils.parse\_ssh\_log\_line\<close>

record ssh_event =
  se_timestamp :: string
  se_user :: string
  se_ip :: string
  se_action :: string
  se_failure_type :: "string option"   \<comment> \<open>the key \<open>failure_type\<close>, when present\<close>
  se_raw_line :: string

definition sshd_line :: "item list \<Rightarrow> item list \<Rightarrow> item list" where
  \<comment> \<open>\<open>TIMESTAMP.*sshd.*REST\<close>\<close>
  "sshd_line ts rst = ts @ [any_text, Lit ''sshd'', any_text] @ rst"

definition ssh_user_from_ip :: "item list \<Rightarrow> item list \<Rightarrow> item list" where
  \<comment> \<open>\<open>TIMESTAMP.*sshd.*LEAD(\w+) from (\d+\.\d+\.\d+\.\d+)\<close>\<close>
  "ssh_user_from_ip ts lead =
     (sshd_line ts lead @ word_group @ [Lit '' from '']) @ ip_group @ []"

definition ssh_auth_failure :: "item list" where
  \<comment> \<open>\<open>(\w{3}\s+\d{1,2}\s+\d{2}:\d{2}:\d{2}).*sshd.*authentication failure.*rhost=(\d+\.\d+\.\d+\.\d+).*user=(\w+)\<close>\<close>
  "ssh_auth_failure =
     (sshd_line ts_syslog [Lit ''authentication failure'', any_text, Lit ''rhost=''])
     @ ip_group @ ([any_text, Lit ''user=''] @ word_group)"

definition ssh_break_in :: "item list \<Rightarrow> item list" where
  \<comment> \<open>\<open>TIMESTAMP.*sshd.*POSSIBLE BREAK-IN ATTEMPT.*from (\d+\.\d+\.\d+\.\d+)\<close>\<close>
  "ssh_break_in ts =
     (sshd_line ts [Lit ''POSSIBLE BREAK-IN ATTEMPT'', any_text, Lit ''from ''])
     @ ip_group @ []"

definition ssh_disconnect :: "item list \<Rightarrow> item list" where
  \<comment> \<open>\<open>TIMESTAMP.*sshd.*Disconnected from (?:invalid user )?(\w+) (\d+\.\d+\.\d+\.\d+)\<close>\<close>
  "ssh_disconnect ts =
     (sshd_line ts [Lit ''Disconnected from '', Opt ''invalid user ''] @ word_group @ [Lit '' ''])
     @ ip_group @ []"

definition ssh_patterns :: "(string \<times> item list list) list" where
  \<comment> \<open>The dict \<open>patterns\<close>, in insertion order, each with its list of patterns.\<close>
  "ssh_patterns =
     [(''accepted'',
         [ssh_user_from_ip ts_syslog [Lit ''Accepted '', some Word, Lit '' for ''],
          ssh_user_from_ip ts_iso [Lit ''Accepted '', some Word, Lit '' for '']]),
      (''failed_password'',
         [ssh_user_from_ip ts_syslog [Lit ''Failed password for '', Opt ''invalid user ''],
          ssh_user_from_ip ts_iso [Lit ''Failed password for '', Opt ''invalid user '']]),
      (''failed'',
         [ssh_user_from_ip ts_syslog
            [Lit ''Failed '', some Word, Lit '' for '', Opt ''invalid user ''],
          ssh_user_from_ip ts_iso
            [Lit ''Failed '', some Word, Lit '' for '', Opt ''invalid user ''],
          ssh_auth_failure]),
      (''invalid_user'',
         [ssh_user_from_ip ts_syslog [Lit ''Invalid user ''],
          ssh_user_from_ip ts_iso [Lit ''Invalid user '']]),
      (''break_in'', [ssh_break_in ts_syslog, ssh_break_in ts_iso]),
      (''disconnect'', [ssh_disconnect ts_syslog, ssh_disconnect ts_iso])]"

definition ssh_entry :: "string \<Rightarrow> string list \<Rightarrow> string \<Rightarrow> py_error + ssh_event" where
  \<comment> \<open>The body of \<open>if match:\<close>, for the action and the groups of the match.\<close>
  "ssh_entry action m line =
     (if action = ''break_in'' then
        (case group m 1 of Inl e \<Rightarrow> Inl e | Inr g1 \<Rightarrow>
        (case group m 2 of Inl e \<Rightarrow> Inl e | Inr g2 \<Rightarrow>
           Inr \<lparr>se_timestamp = g1, se_user = ''unknown'', se_ip = g2, se_action = action,
                se_failure_type = None, se_raw_line = line\<rparr>))
      else if action = ''failed'' \<and> contains ''authentication failure'' line then
        (case group m 1 of Inl e \<Rightarrow> Inl e | Inr g1 \<Rightarrow>
        (case group m 3 of Inl e \<Rightarrow> Inl e | Inr g3 \<Rightarrow>
        (case group m 2 of Inl e \<Rightarrow> Inl e | Inr g2 \<Rightarrow>
           Inr \<lparr>se_timestamp = g1, se_user = g3, se_ip = g2, se_action = action,
                se_failure_type = None, se_raw_line = line\<rparr>)))
      else if action = ''failed_password'' then
        (case group m 1 of Inl e \<Rightarrow> Inl e | Inr g1 \<Rightarrow>
        (case group m 2 of Inl e \<Rightarrow> Inl e | Inr g2 \<Rightarrow>
        (case group m 3 of Inl e \<Rightarrow> Inl e | Inr g3 \<Rightarrow>
           Inr \<lparr>se_timestamp = g1, se_user = g2, se_ip = g3, se_action = action,
                se_failure_type = Some ''Mot de passe incorrect'', se_raw_line = line\<rparr>)))
      else
        (case group m 1 of Inl e \<Rightarrow> Inl e | Inr g1 \<Rightarrow>
        (case group m 2 of Inl e \<Rightarrow> Inl e | Inr g2 \<Rightarrow>
        (case group m 3 of Inl e \<Rightarrow> Inl e | Inr g3 \<Rightarrow>
           Inr \<lparr>se_timestamp = g1, se_user = g2, se_ip = g3, se_action = action,
                se_failure_type = None, se_raw_line = line\<rparr>))))"

fun ssh_pattern_loop :: "string \<Rightarrow> item list list \<Rightarrow> string \<Rightarrow> (py_error + ssh_event) option" where
  \<comment> \<open>\<open>for pattern in pattern_list\<close>; \<open>None\<close> when no pattern of the list matches.\<close>
  "ssh_pattern_loop action [] line = None"
| "ssh_pattern_loop action (pattern # others) line =
     (case re_search pattern line of
        None \<Rightarrow> ssh_pattern_loop action others line
      | Some m \<Rightarrow> Some (ssh_entry action m line))"

fun ssh_action_loop :: "(string \<times> item list list) list \<Rightarrow> string \<Rightarrow> py_error + ssh_event option" where
  \<comment> \<open>\<open>for action, pattern_list in patterns.items()\<close>\<close>
  "ssh_action_loop [] line = Inr None"
| "ssh_action_loop ((action, pattern_list) # others) line =
     (case ssh_pattern_loop action pattern_list line of
        None \<Rightarrow> ssh_action_loop others line
      | Some (Inl e) \<Rightarrow> Inl e
      | Some (Inr entry) \<Rightarrow> Inr (Some entry))"

definition parse_ssh_log_line :: "string \<Rightarrow> py_error + ssh_event option" where
  "parse_ssh_log_line line =
     (if \<not> contains ''sshd'' line then Inr None else ssh_action_loop ssh_patterns line)"




section \<open>fail2ban\_manager.Fail2banManager.get\_jail\_status\<close>

record jail_status =
  js_name :: string
  js_enabled :: bool
  js_filter :: string
  js_actions :: "string list"
  js_currently_failed :: int
  js_total_failed :: int
  js_currently_banned :: int
  js_total_banned :: int
  js_banned_ips :: "string list"

text \<open>The two dicts \<open>get_jail_status\<close> returns: the one with the key \<open>error\<close>
  (\<open>enabled\<close> is \<open>False\<close>), and the full status.\<close>

datatype jail_info =
    JailError string string   \<comment> \<open>\<open>name\<close>, \<open>error\<close>\<close>
  | JailStatus jail_status

definition split1_second :: "char \<Rightarrow> string \<Rightarrow> py_error + string" where
  \<comment> \<open>\<open>s.split(sep, 1)[1]\<close>: the text after the first \<open>sep\<close>; without a \<open>sep\<close> the list
     has one element and the index raises.\<close>
  "split1_second sep s =
     (case partition_on sep s of (before, found, after) \<Rightarrow>
        if found = [] then Inl IndexError else Inr after)"

fun split_ws_from :: "string \<Rightarrow> string \<Rightarrow> string list" where
  "split_ws_from cur [] = (if cur = [] then [] else [cur])"
| "split_ws_from cur (c # cs) =
     (if py_isspace c then (if cur = [] then split_ws_from [] cs else cur # split_ws_from [] cs)
      else split_ws_from (cur @ [c]) cs)"

definition split_ws :: "string \<Rightarrow> string list" where
  \<comment> \<open>\<open>s.split()\<close>: the maximal runs of non-whitespace characters.\<close>
  "split_ws s = split_ws_from [] s"

definition py_int :: "string \<Rightarrow> int option" where
  \<comment> \<open>\<open>int(s)\<close> for a non-empty string of decimal digits. CPython 3.11 raises
     \<open>ValueError\<close> for more than 4300 digits (the default limit); that is \<open>None\<close>.\<close>
  "py_int s = (if length s > 4300 then None else Some (int_base10 s))"

definition parse_counter :: "string \<Rightarrow> int option" where
  \<comment> \<open>\<open>int(re.search(r'\d+', line).group())\<close> inside \<open>try: ... except: pass\<close>: \<open>None\<close> when
     the search finds nothing (\<open>AttributeError\<close> on \<open>None\<close>) or \<open>int\<close> raises.\<close>
  "parse_counter line =
     (case re_search [GOpen, some Digit, GClose] line of
        None \<Rightarrow> None
      | Some m \<Rightarrow> (case m of [] \<Rightarrow> None | g # _ \<Rightarrow> py_int g))"

definition stripped_items :: "string list \<Rightarrow> string list" where
  \<comment> \<open>\<open>[x.strip() for x in xs if x.strip()]\<close>\<close>
  "stripped_items xs = filter (\<lambda>x. x \<noteq> []) (map strip xs)"

definition status_line :: "jail_status \<Rightarrow> string \<Rightarrow> py_error + jail_status" where
  \<comment> \<open>The body of the loop, for one line already stripped.\<close>
  "status_line status line =
     (if contains ''Filter'' line \<and> contains_char (CHR '':'') line then
        (case split1_second (CHR '':'') line of
           Inl e \<Rightarrow> Inl e
         | Inr v \<Rightarrow> Inr (status\<lparr>js_filter := strip v\<rparr>))
      else if contains ''Actions'' line \<and> contains_char (CHR '':'') line then
        (case split1_second (CHR '':'') line of
           Inl e \<Rightarrow> Inl e
         | Inr v \<Rightarrow>
             Inr (status\<lparr>js_actions := stripped_items (split_on (CHR '','') (strip v))\<rparr>))
      else if contains ''Currently failed:'' line then
        Inr (case parse_counter line of
               Some n \<Rightarrow> status\<lparr>js_currently_failed := n\<rparr> | None \<Rightarrow> status)
      else if contains ''Total failed:'' line then
        Inr (case parse_counter line of
               Some n \<Rightarrow> status\<lparr>js_total_failed := n\<rparr> | None \<Rightarrow> status)
      else if contains ''Currently banned:'' line then
        Inr (case parse_counter line of
               Some n \<Rightarrow> status\<lparr>js_currently_banned := n\<rparr> | None \<Rightarrow> status)
      else if contains ''Total banned:'' line then
        Inr (case parse_counter line of
               Some n \<Rightarrow> status\<lparr>js_total_banned := n\<rparr> | None \<Rightarrow> status)
      else if contains ''Banned IP list:'' line then
        (case split1_second (CHR '':'') line of
           Inl e \<Rightarrow> Inl e
         | Inr v \<Rightarrow>
             let ips_str = strip v
             in if ips_str \<noteq> [] then
                  Inr (status\<lparr>js_banned_ips := stripped_items (split_ws ips_str)\<rparr>)
                else Inr status)
      else Inr status)"

fun status_lines :: "jail_status \<Rightarrow> string list \<Rightarrow> py_error + jail_status" where
  \<comment> \<open>\<open>for line in lines: line = line.strip(); ...\<close>\<close>
  "status_lines status [] = Inr status"
| "status_lines status (line # lines) =
     (case status_line status (strip line) of
        Inl e \<Rightarrow> Inl e
      | Inr status' \<Rightarrow> status_lines status' lines)"

definition initial_status :: "string \<Rightarrow> jail_status" where
  "initial_status jail_name =
     \<lparr>js_name = jail_name, js_enabled = True, js_filter = [], js_actions = [],
      js_currently_failed = 0, js_total_failed = 0, js_currently_banned = 0,
      js_total_banned = 0, js_banned_ips = []\<rparr>"

definition get_jail_status ::
  "'h runner \<Rightarrow> string \<Rightarrow> 'h system \<Rightarrow> (py_error + jail_info) \<times> 'h system" where
  "get_jail_status run jail_name s =
     (case safe_execute_command run [client_path, ''status'', jail_name] s of
        ((success, out, err), s') \<Rightarrow>
          if \<not> success then
            (Inr (JailError jail_name (or_else err ''Failed to get jail status'')), s')
          else
            (case status_lines (initial_status jail_name) (split_on (CHR 0x0A) out) of
               Inl e \<Rightarrow> (Inl e, s')
             | Inr status \<Rightarrow> (Inr (JailStatus status), s')))"

definition status_text_lines :: "string \<Rightarrow> string list" where
  \<comment> \<open>The lines of a status text as the loop sees them.\<close>
  "status_text_lines out = map strip (split_on (CHR 0x0A) out)"

definition fixed_output :: "string \<Rightarrow> unit runner" where
  \<comment> \<open>A host on which every command succeeds and prints the given text.\<close>
  "fixed_output out command h = (Completed 0 out [], h)"

definition sample_status :: string where
  \<comment> \<open>A status text for the examples: no line for three of the counters, a counter
     without a number, and \<open>Filter\<close> and \<open>Actions\<close> lines without a colon.\<close>
  "sample_status =
     ''Status for the jail: sshd'' @ [CHR 0x0A] @
     ''|- Filter'' @ [CHR 0x0A] @
     ''|  |- Total failed: n/a'' @ [CHR 0x0A] @
     ''`- Actions'' @ [CHR 0x0A] @
     ''   `- Banned IP list:'' @ [CHR 0x09] @ ''1.2.3.4''"

definition status_defaults :: "string \<Rightarrow> jail_status \<Rightarrow> bool" where
  \<comment> \<open>What "missing fields default to zero or empty" says of a status text and the record
     read from it: a field for which no line of the text supplies a value has the value
     of the initial record.\<close>
  "status_defaults out st =
     ((list_all (\<lambda>l. \<not> (contains ''Filter'' l \<and> contains_char (CHR '':'') l))
         (status_text_lines out) \<longrightarrow> js_filter st = [])
      \<and> (list_all (\<lambda>l. \<not> (contains ''Actions'' l \<and> contains_char (CHR '':'') l))
         (status_text_lines out) \<longrightarrow> js_actions st = [])
      \<and> (list_all (\<lambda>l. contains ''Currently failed:'' l \<longrightarrow> parse_counter l = None)
         (status_text_lines out) \<longrightarrow> js_currently_failed st = 0)
      \<and> (list_all (\<lambda>l. contains ''Total failed:'' l \<longrightarrow> parse_counter l = None)
         (status_text_lines out) \<longrightarrow> js_total_failed st = 0)
      \<and> (list_all (\<lambda>l. contains ''Currently banned:'' l \<longrightarrow> parse_counter l = None)
         (status_text_lines out) \<longrightarrow> js_currently_banned st = 0)
      \<and> (list_all (\<lambda>l. contains ''Total banned:'' l \<longrightarrow> parse_counter l = None)
         (status_text_lines out) \<longrightarrow> js_total_banned st = 0)
      \<and> (list_all (\<lambda>l. \<not> contains ''Banned IP list:'' l)
         (status_text_lines out) \<longrightarrow> js_banned_ips st = []))"

section \<open>Address classes of the module ipaddress\<close>

unbundle bit_operations_syntax

text \<open>
  A network is its version, its network address and its netmask. The constructors take
  the two halves of the text \<open>address/prefixlen\<close>; with host bits set they raise, which is
  \<open>None\<close>. Membership is \<open>_BaseNetwork.__contains__\<close>.
\<close>

datatype ip_network = Network nat int int

definition ip_int_from_prefix :: "nat \<Rightarrow> nat \<Rightarrow> int" where
  \<comment> \<open>\<open>_ALL_ONES ^ (_ALL_ONES >> prefixlen)\<close>\<close>
  "ip_int_from_prefix bits prefixlen = (2 ^ bits - 1) XOR drop_bit prefixlen (2 ^ bits - 1)"

definition IPv4Network :: "string \<Rightarrow> nat \<Rightarrow> ip_network option" where
  "IPv4Network address prefixlen =
     (case IPv4Address address of
        None \<Rightarrow> None
      | Some a \<Rightarrow>
          let netmask = ip_int_from_prefix 32 prefixlen
          in if a AND netmask \<noteq> a then None else Some (Network 4 a netmask))"

definition IPv6Network :: "string \<Rightarrow> nat \<Rightarrow> ip_network option" where
  "IPv6Network address prefixlen =
     (case IPv6Address address of
        None \<Rightarrow> None
      | Some (a, scope_id) \<Rightarrow>
          let netmask = ip_int_from_prefix 128 prefixlen
          in if a AND netmask \<noteq> a then None else Some (Network 6 a netmask))"

definition networks :: "ip_network option list \<Rightarrow> ip_network list" where
  \<comment> \<open>A list of network constants, each of which has been constructed.\<close>
  "networks ns = List.map_filter id ns"

fun in_network :: "ip_addr \<Rightarrow> ip_network \<Rightarrow> bool" where
  \<comment> \<open>\<open>addr in net\<close>: false across versions, else \<open>addr._ip & netmask == network_address\<close>\<close>
  "in_network (IPv4 ip) (Network version network_address netmask) =
     (version = 4 \<and> ip AND netmask = network_address)"
| "in_network (IPv6 ip scope_id) (Network version network_address netmask) =
     (version = 6 \<and> ip AND netmask = network_address)"

definition v4_private_networks :: "ip_network list" where
  "v4_private_networks = networks
     [IPv4Network ''0.0.0.0'' 8, IPv4Network ''10.0.0.0'' 8, IPv4Network ''127.0.0.0'' 8,
      IPv4Network ''169.254.0.0'' 16, IPv4Network ''172.16.0.0'' 12,
      IPv4Network ''192.0.0.0'' 24, IPv4Network ''192.0.0.170'' 31,
      IPv4Network ''192.0.2.0'' 24, IPv4Network ''192.168.0.0'' 16,
      IPv4Network ''198.18.0.0'' 15, IPv4Network ''198.51.100.0'' 24,
      IPv4Network ''203.0.113.0'' 24, IPv4Network ''240.0.0.0'' 4,
      IPv4Network ''255.255.255.255'' 32]"

definition v4_private_networks_exceptions :: "ip_network list" where
  "v4_private_networks_exceptions = networks
     [IPv4Network ''192.0.0.9'' 32, IPv4Network ''192.0.0.10'' 32]"

definition v4_loopback_network :: "ip_network list" where
  "v4_loopback_network = networks [IPv4Network ''127.0.0.0'' 8]"

definition v4_linklocal_network :: "ip_network list" where
  "v4_linklocal_network = networks [IPv4Network ''169.254.0.0'' 16]"

definition v6_private_networks :: "ip_network list" where
  "v6_private_networks = networks
     [IPv6Network ''::1'' 128, IPv6Network ''::'' 128, IPv6Network ''::ffff:0:0'' 96,
      IPv6Network ''64:ff9b:1::'' 48, IPv6Network ''100::'' 64, IPv6Network ''2001::'' 23,
      IPv6Network ''2001:db8::'' 32, IPv6Network ''2002::'' 16, IPv6Network ''fc00::'' 7,
      IPv6Network ''fe80::'' 10]"

definition v6_private_networks_exceptions :: "ip_network list" where
  "v6_private_networks_exceptions = networks
     [IPv6Network ''2001:1::1'' 128, IPv6Network ''2001:1::2'' 128, IPv6Network ''2001:3::'' 32,
      IPv6Network ''2001:4:112::'' 48, IPv6Network ''2001:20::'' 28,
      IPv6Network ''2001:30::'' 28]"

definition v6_linklocal_network :: "ip_network list" where
  "v6_linklocal_network = networks [IPv6Network ''fe80::'' 10]"

definition v4_is_private :: "int \<Rightarrow> bool" where
  "v4_is_private ip =
     (list_ex (in_network (IPv4 ip)) v4_private_networks
      \<and> list_all (\<lambda>net. \<not> in_network (IPv4 ip) net) v4_private_networks_exceptions)"

fun is_private :: "ip_addr \<Rightarrow> bool" where
  "is_private (IPv4 ip) = v4_is_private ip"
| "is_private (IPv6 ip scope_id) =
     (if drop_bit 32 ip = 0xFFFF then v4_is_private (ip AND 0xFFFFFFFF)
      else list_ex (in_network (IPv6 ip scope_id)) v6_private_networks
           \<and> list_all (\<lambda>net. \<not> in_network (IPv6 ip scope_id) net)
                v6_private_networks_exceptions)"

fun is_loopback :: "ip_addr \<Rightarrow> bool" where
  "is_loopback (IPv4 ip) = list_ex (in_network (IPv4 ip)) v4_loopback_network"
| "is_loopback (IPv6 ip scope_id) = (ip = 1)"

fun is_link_local :: "ip_addr \<Rightarrow> bool" where
  "is_link_local (IPv4 ip) = list_ex (in_network (IPv4 ip)) v4_linklocal_network"
| "is_link_local (IPv6 ip scope_id) = list_ex (in_network (IPv6 ip scope_id)) v6_linklocal_network"

section \<open>utils.get\_ip\_geolocation\<close>

text \<open>
  The values of a decoded JSON document. A float is either \<open>m * 2 ^ e\<close> or not finite;
  only whether it is zero matters here (\<open>x or default\<close>).
\<close>

datatype json =
    JNull | JBool bool | JInt int | JFloat int int | JNonFinite | JStr string
  | JArr "json list" | JObj "(string \<times> json) list"

fun truthy :: "json \<Rightarrow> bool" where
  "truthy JNull = False"
| "truthy (JBool b) = b"
| "truthy (JInt n) = (n \<noteq> 0)"
| "truthy (JFloat m e) = (m \<noteq> 0)"
| "truthy JNonFinite = True"
| "truthy (JStr s) = (s \<noteq> [])"
| "truthy (JArr xs) = (xs \<noteq> [])"
| "truthy (JObj kvs) = (kvs \<noteq> [])"

record geo_info =
  country :: json
  region :: json
  city :: json
  isp :: json
  org :: json
  lat :: json
  lon :: json
  timezone :: json

definition get_default_geo_info :: geo_info where
  "get_default_geo_info =
     \<lparr>country = JStr ''Non disponible'', region = JStr ''Non disponible'',
      city = JStr ''Non disponible'', isp = JStr ''Non disponible'',
      org = JStr ''Non disponible'', lat = JInt 0, lon = JInt 0,
      timezone = JStr ''Non disponible''\<rparr>"

definition local_geo_info :: geo_info where
  \<comment> \<open>The dict of the private branch; \<open>CHR 0xE9\<close> is the letter e with acute accent.\<close>
  "local_geo_info =
     \<lparr>country = JStr (''R'' @ [CHR 0xE9] @ ''seau Local''),
      region = JStr (''R'' @ [CHR 0xE9] @ ''seau Priv'' @ [CHR 0xE9]),
      city = JStr ''LAN'',
      isp = JStr (''R'' @ [CHR 0xE9] @ ''seau Local''),
      org = JStr (''R'' @ [CHR 0xE9] @ ''seau Priv'' @ [CHR 0xE9]),
      lat = JInt 0, lon = JInt 0, timezone = JStr ''Local''\<rparr>"

definition undetermined :: json where
  "undetermined = JStr (''Non d'' @ [CHR 0xE9] @ ''termin'' @ [CHR 0xE9])"

datatype http_outcome =
    RequestFailed               \<comment> \<open>\<open>requests.get\<close> raised\<close>
  | Response int "json option"  \<comment> \<open>\<open>status_code\<close>, and \<open>response.json()\<close> (\<open>None\<close>: it raises)\<close>

type_synonym 'n fetcher = "string \<Rightarrow> 'n \<Rightarrow> http_outcome \<times> 'n"

text \<open>
  The module state: the two caches, and the network, with the log of the URLs handed to
  \<open>requests.get\<close>. Times are microseconds on the clock of \<open>datetime.now()\<close>.
\<close>

record 'n geo_state =
  geolocation_cache :: "string \<rightharpoonup> geo_info"
  cache_timestamps :: "string \<rightharpoonup> int"
  requested :: "string list"
  network :: 'n

definition IP_API_URL :: string where
  "IP_API_URL = ''http://ip-api.com/json/''"

definition dict_get :: "(string \<times> json) list \<Rightarrow> string \<Rightarrow> json \<Rightarrow> json" where
  \<comment> \<open>\<open>data.get(key, default)\<close>\<close>
  "dict_get kvs key dflt = (case map_of kvs key of None \<Rightarrow> dflt | Some v \<Rightarrow> v)"

definition get_or :: "(string \<times> json) list \<Rightarrow> string \<Rightarrow> json \<Rightarrow> json" where
  \<comment> \<open>\<open>data.get(key) or default\<close>\<close>
  "get_or kvs key dflt = (let v = dict_get kvs key JNull in if truthy v then v else dflt)"

definition geo_from_response :: "http_outcome \<Rightarrow> geo_info option" where
  \<comment> \<open>The \<open>try\<close> block after the request: the dict built from a successful answer, or
     \<open>None\<close> when the block falls through or raises.\<close>
  "geo_from_response outcome =
     (case outcome of
        Response status_code (Some (JObj data)) \<Rightarrow>
          if status_code = 200 \<and> dict_get data ''status'' JNull = JStr ''success'' then
            Some \<lparr>country = get_or data ''country'' undetermined,
                  region = get_or data ''regionName'' undetermined,
                  city = get_or data ''city'' undetermined,
                  isp = get_or data ''isp'' undetermined,
                  org = get_or data ''org'' undetermined,
                  lat = dict_get data ''lat'' (JInt 0),
                  lon = dict_get data ''lon'' (JInt 0),
                  timezone = get_or data ''timezone'' undetermined\<rparr>
          else None
      | _ \<Rightarrow> None)"

definition cache_put :: "string \<Rightarrow> geo_info \<Rightarrow> int \<Rightarrow> 'n geo_state \<Rightarrow> 'n geo_state" where
  "cache_put ip geo current_time s =
     s\<lparr>geolocation_cache := (geolocation_cache s)(ip \<mapsto> geo),
       cache_timestamps := (cache_timestamps s)(ip \<mapsto> current_time)\<rparr>"

definition cache_hit :: "string \<Rightarrow> int \<Rightarrow> 'n geo_state \<Rightarrow> geo_info option" where
  \<comment> \<open>An entry in both dicts, less than 3600 seconds old.\<close>
  "cache_hit ip current_time s =
     (case (geolocation_cache s ip, cache_timestamps s ip) of
        (Some geo, Some t) \<Rightarrow> if current_time - t < 3600 * 1000000 then Some geo else None
      | _ \<Rightarrow> None)"

definition get_ip_geolocation ::
  "'n fetcher \<Rightarrow> int \<Rightarrow> string \<Rightarrow> 'n geo_state \<Rightarrow> geo_info \<times> 'n geo_state" where
  "get_ip_geolocation fetch current_time ip s =
     (if \<not> validate_ip_address ip then (get_default_geo_info, s)
      else case cache_hit ip current_time s of
        Some geo \<Rightarrow> (geo, s)
      | None \<Rightarrow>
          if (case ipaddress_ip_address ip of Some ip_obj \<Rightarrow> is_private ip_obj | None \<Rightarrow> False)
          then (local_geo_info, cache_put ip local_geo_info current_time s)
          else
            (case fetch (IP_API_URL @ ip) (network s) of (outcome, n') \<Rightarrow>
               let s1 = s\<lparr>requested := requested s @ [IP_API_URL @ ip], network := n'\<rparr>
               in case geo_from_response outcome of
                    Some geo \<Rightarrow> (geo, cache_put ip geo current_time s1)
                  | None \<Rightarrow> (get_default_geo_info,
                             cache_put ip get_default_geo_info current_time s1)))"

inductive reachable :: "'n geo_state \<Rightarrow> bool" where
  \<comment> \<open>The states of the module: empty caches at import, then calls of
     \<open>get_ip_geolocation\<close>, the only code that writes them.\<close>
  start: "reachable \<lparr>geolocation_cache = Map.empty, cache_timestamps = Map.empty,
                     requested = rs, network = n\<rparr>"
| call: "reachable s \<Longrightarrow> reachable (snd (get_ip_geolocation fetch current_time ip s))"

fun disjoint_networks :: "ip_network \<Rightarrow> ip_network \<Rightarrow> bool" where
  \<comment> \<open>The two networks disagree on a bit that both netmasks fix, so no address is in
     both.\<close>
  "disjoint_networks (Network v1 n1 m1) (Network v2 n2 m2) = (n1 AND m2 \<noteq> n2 AND m1)"

definition cache_consistent :: "'n geo_state \<Rightarrow> bool" where
  \<comment> \<open>Every cached entry for a private address is the local-network dict.\<close>
  "cache_consistent s =
     (\<forall>ip geo ip_obj. geolocation_cache s ip = Some geo \<longrightarrow> ipaddress_ip_address ip = Some ip_obj
        \<longrightarrow> is_private ip_obj \<longrightarrow> geo = local_geo_info)"

definition addr_char :: "char \<Rightarrow> bool" where
  \<comment> \<open>The characters of an address text proper: hexadecimal digits, colon and dot.\<close>
  "addr_char c = (is_hex_digit c \<or> c = CHR '':'' \<or> c = CHR ''.'')"


section \<open>Facts about the string primitives\<close>

lemma foldl_str_remove:
  "foldl (\<lambda>acc c. str_remove c acc) s cs = filter (\<lambda>x. x \<notin> set cs) s"
proof (induction cs arbitrary: s)
  case Nil
  then show ?case by simp
next
  case (Cons c cs)
  have "filter (\<lambda>x. x \<notin> set cs) (str_remove c s) = filter (\<lambda>x. x \<notin> set (c # cs)) s"
    by (simp add: str_remove_def conj_commute)
  with Cons show ?case by simp
qed

lemma set_strip_subset: "set (strip s) \<subseteq> set s"
proof -
  have "set (rev (dropWhile py_isspace (rev (dropWhile py_isspace s))))
          \<subseteq> set (dropWhile py_isspace s)"
    using set_dropWhileD [of _ py_isspace "rev (dropWhile py_isspace s)"] by auto
  moreover have "set (dropWhile py_isspace s) \<subseteq> set s"
    using set_dropWhileD [of _ py_isspace s] by auto
  ultimately show ?thesis
    unfolding strip_def rstrip_def lstrip_def by blast
qed

lemma strip_head: "strip s = c # t \<Longrightarrow> \<not> py_isspace c"
proof -
  assume a: "strip s = c # t"
  define u where "u = dropWhile py_isspace s"
  define v where "v = dropWhile py_isspace (rev u)"
  from a have r: "rev v = c # t"
    by (simp add: strip_def rstrip_def lstrip_def u_def v_def)
  then have vne: "v \<noteq> []" by auto
  have "\<exists>w. rev u = w @ v"
    unfolding v_def by (metis takeWhile_dropWhile_id)
  then obtain w where w: "rev u = w @ v" ..
  then have "u = rev v @ rev w" by (metis rev_append rev_rev_ident)
  with r have "u = c # (t @ rev w)" by simp
  then have "hd u = c" and "u \<noteq> []" by simp_all
  then show ?thesis
    unfolding u_def by (metis hd_dropWhile)
qed

lemma strip_last: "strip s = t @ [c] \<Longrightarrow> \<not> py_isspace c"
proof -
  assume a: "strip s = t @ [c]"
  define u where "u = dropWhile py_isspace s"
  from a have "rev (dropWhile py_isspace (rev u)) = t @ [c]"
    by (simp add: strip_def rstrip_def lstrip_def u_def)
  then have "dropWhile py_isspace (rev u) = c # rev t"
    by (metis rev_rev_ident rev_append rev.simps(2) rev.simps(1) append_Nil append_Cons rev_singleton_conv rev_eq_Cons_iff)
  then show ?thesis
    by (metis hd_dropWhile list.sel(1) list.distinct(1))
qed

lemma strip_fixed:
  assumes "s = [] \<or> (\<not> py_isspace (hd s) \<and> \<not> py_isspace (last s))"
  shows "strip s = s"
proof (cases s)
  case Nil
  then show ?thesis by (simp add: strip_def rstrip_def lstrip_def)
next
  case (Cons a t)
  with assms have h: "\<not> py_isspace a" and l: "\<not> py_isspace (last s)" by auto
  from Cons h have 1: "dropWhile py_isspace s = s" by simp
  have "rev s = rev (butlast s @ [last s])" using Cons by simp
  also have "\<dots> = last s # rev (butlast s)" by simp
  finally have "rev s = last s # rev (butlast s)" .
  with l have 2: "dropWhile py_isspace (rev s) = rev s"
    by (metis dropWhile.simps(2))
  show ?thesis by (simp add: strip_def rstrip_def lstrip_def 1 2)
qed

lemma strip_strip: "strip (strip s) = strip s"
proof (rule strip_fixed, cases "strip s = []")
  case True
  then show "strip s = [] \<or> (\<not> py_isspace (hd (strip s)) \<and> \<not> py_isspace (last (strip s)))"
    by simp
next
  case False
  then obtain c t where ct: "strip s = c # t" by (cases "strip s") auto
  from False obtain t' c' where tc: "strip s = t' @ [c']"
    by (metis rev_exhaust)
  from ct have "\<not> py_isspace (hd (strip s))" using strip_head by fastforce
  moreover from tc have "\<not> py_isspace (last (strip s))" using strip_last by fastforce
  ultimately show "strip s = [] \<or> (\<not> py_isspace (hd (strip s)) \<and> \<not> py_isspace (last (strip s)))"
    by simp
qed

section \<open>Claims about sanitize\_input\<close>

lemma sanitize_input_filter:
  "sanitize_input s = strip (filter (\<lambda>x. x \<notin> set dangerous_chars) s)"
  by (simp add: sanitize_input_def foldl_str_remove)

lemma sanitize_input_clean: "set (sanitize_input s) \<inter> set dangerous_chars = {}"
proof -
  have "set (sanitize_input s) \<subseteq> set (filter (\<lambda>x. x \<notin> set dangerous_chars) s)"
    unfolding sanitize_input_filter by (rule set_strip_subset)
  then show ?thesis by auto
qed

text \<open>
  C10. \<open>sanitize_input\<close> is idempotent: applying it to its own output changes nothing.
  Its output holds no character of the deny-list, and neither starts nor ends with a
  whitespace character.
\<close>

theorem sanitize_input_idempotent:
  "sanitize_input (sanitize_input s) = sanitize_input s
   \<and> set (sanitize_input s) \<inter> set dangerous_chars = {}
   \<and> \<not> (\<exists>c t. sanitize_input s = c # t \<and> py_isspace c)
   \<and> \<not> (\<exists>c t. sanitize_input s = t @ [c] \<and> py_isspace c)"
proof -
  define r where "r = sanitize_input s"
  have clean: "set r \<inter> set dangerous_chars = {}"
    unfolding r_def by (rule sanitize_input_clean)
  then have "filter (\<lambda>x. x \<notin> set dangerous_chars) r = r"
    by (auto intro: filter_True)
  then have "sanitize_input r = strip r"
    by (simp add: sanitize_input_filter)
  also have "\<dots> = r"
    unfolding r_def sanitize_input_filter by (rule strip_strip)
  finally have idem: "sanitize_input r = r" .
  have hd: "\<not> (\<exists>c t. r = c # t \<and> py_isspace c)"
    unfolding r_def sanitize_input_filter using strip_head by blast
  have lst: "\<not> (\<exists>c t. r = t @ [c] \<and> py_isspace c)"
    unfolding r_def sanitize_input_filter using strip_last by blast
  from idem clean hd lst show ?thesis unfolding r_def by blast
qed

theorem sanitize_input_idempotent_witness:
  "sanitize_input '' sshd; rm -rf $(x) '' = ''sshd rm -rf x''
   \<and> sanitize_input (sanitize_input '' sshd; rm -rf $(x) '') = ''sshd rm -rf x''"
  using sanitize_input_idempotent [of "'' sshd; rm -rf $(x) ''"]
  by (simp add: sanitize_input_def strip_def rstrip_def lstrip_def str_remove_def
      dangerous_chars_def py_isspace_def code_def)

section \<open>Claims about ban and unban\<close>

lemma issued_safe_execute_command:
  "issued (snd (safe_execute_command run command s)) = issued s @ [command]"
  by (simp add: safe_execute_command_def split: prod.splits)

lemma int_base10_snoc: "int_base10 (xs @ [c]) = 10 * int_base10 xs + (code c - 48)"
  by (simp add: int_base10_def)

lemma code_char_of: "0 \<le> n \<Longrightarrow> n < 256 \<Longrightarrow> code (char_of n) = n"
  by (simp add: code_def)

lemma dec_digits_small: "n < 10 \<Longrightarrow> dec_digits n = [char_of (48 + n)]"
  by (subst dec_digits.simps) simp

lemma dec_digits_large:
  "\<not> n < 10 \<Longrightarrow> dec_digits n = dec_digits (n div 10) @ [char_of (48 + n mod 10)]"
  by (subst dec_digits.simps) simp

lemma dec_digits_not_Nil: "dec_digits n \<noteq> []"
  by (cases "n < 10") (simp_all add: dec_digits_small dec_digits_large)

lemma int_base10_dec_digits: "0 \<le> n \<Longrightarrow> int_base10 (dec_digits n) = n"
proof (induction n rule: dec_digits.induct)
  case (1 n)
  show ?case
  proof (cases "n < 10")
    case True
    with "1.prems" have "code (char_of (48 + n)) = 48 + n"
      by (intro code_char_of) auto
    with True show ?thesis
      by (subst dec_digits.simps) (simp add: int_base10_def)
  next
    case False
    with "1.prems" have ih: "int_base10 (dec_digits (n div 10)) = n div 10"
      by (intro "1.IH") auto
    have "code (char_of (48 + n mod 10)) = 48 + n mod 10"
      by (intro code_char_of) auto
    with False ih show ?thesis
      by (subst dec_digits.simps) (simp add: int_base10_snoc)
  qed
qed

text \<open>
  A number that is not negative has at most \<open>k\<close> decimal digits exactly when it is below
  \<open>10 ^ k\<close>. So \<open>str\<close> raises exactly from \<open>10 ^ max_str_digits\<close> on, in magnitude.
\<close>

lemma dec_digits_length_le:
  "0 \<le> n \<Longrightarrow> 1 \<le> k \<Longrightarrow> length (dec_digits n) \<le> k \<longleftrightarrow> n < 10 ^ k"
proof (induction n arbitrary: k rule: dec_digits.induct)
  case (1 n)
  show ?case
  proof (cases "n < 10")
    case True
    from "1.prems" have "(10::int) ^ 1 \<le> 10 ^ k" by (intro power_increasing) auto
    with True have "n < 10 ^ k" by simp
    with True "1.prems" show ?thesis by (simp add: dec_digits_small)
  next
    case False
    from "1.prems" obtain j where j: "k = Suc j" by (cases k) auto
    show ?thesis
    proof (cases "j = 0")
      case True
      with False j show ?thesis by (simp add: dec_digits_large dec_digits_not_Nil)
    next
      case j0: False
      with False "1.prems" have ih: "length (dec_digits (n div 10)) \<le> j \<longleftrightarrow> n div 10 < 10 ^ j"
        by (intro "1.IH") auto
      have "n div 10 < 10 ^ j \<longleftrightarrow> n < 10 * 10 ^ j" by presburger
      with ih False j show ?thesis by (simp add: dec_digits_large)
    qed
  qed
qed

lemma max_str_digits_pos: "1 \<le> max_str_digits"
  by (simp add: max_str_digits_def)

lemma digits_long_to_decimal_string:
  "length (long_to_decimal_string n) - (if n < 0 then 1 else 0) = length (dec_digits \<bar>n\<bar>)"
  by (simp add: long_to_decimal_string_def)

lemma py_str_small:
  assumes "\<bar>n\<bar> < 10 ^ max_str_digits"
  shows "py_str n = Inr (long_to_decimal_string n)"
proof -
  from assms have "length (dec_digits \<bar>n\<bar>) \<le> max_str_digits"
    using dec_digits_length_le [of "\<bar>n\<bar>" max_str_digits] max_str_digits_pos by simp
  then show ?thesis
    by (simp add: py_str_def Let_def digits_long_to_decimal_string)
qed

lemma py_str_large:
  assumes "10 ^ max_str_digits \<le> \<bar>n\<bar>"
  shows "py_str n = Inl ValueError"
proof -
  from assms have "\<not> length (dec_digits \<bar>n\<bar>) \<le> max_str_digits"
    using dec_digits_length_le [of "\<bar>n\<bar>" max_str_digits] max_str_digits_pos by simp
  then show ?thesis
    by (simp add: py_str_def Let_def digits_long_to_decimal_string)
qed

lemma below_max_str_digits:
  fixes n :: int
  assumes a: "\<bar>n\<bar> < 10000"
  shows "\<bar>n\<bar> < 10 ^ max_str_digits"
proof -
  have "(10::int) ^ 4 \<le> 10 ^ max_str_digits"
    by (intro power_increasing) (simp_all add: max_str_digits_def)
  with a show ?thesis by simp
qed

lemma py_str_minus_one: "py_str (- 1) = Inr ''-1''"
  by code_simp

text \<open>
  The two outcomes of \<open>ban_ip_with_time\<close> on a valid address: when \<open>str\<close> of the duration
  is \<open>duration\<close>, two commands run, the first with \<open>duration\<close>; when \<open>str\<close> raises, nothing runs.
\<close>

lemma ban_ip_with_time_Inr:
  assumes "validate_ip_address ip" and "py_str d = Inr duration"
  shows "snd (ban_ip_with_time run jail ip d s)
           = snd (safe_execute_command run
                    [client_path, ''set'', sanitize_input jail, ''banip'', sanitize_input ip]
                    (snd (safe_execute_command run
                            [client_path, ''set'', sanitize_input jail, ''bantime'', duration] s)))"
    and "fst (ban_ip_with_time run jail ip d s)
           = (case fst (safe_execute_command run
                    [client_path, ''set'', sanitize_input jail, ''banip'', sanitize_input ip]
                    (snd (safe_execute_command run
                            [client_path, ''set'', sanitize_input jail, ''bantime'', duration] s))) of
                (success, out, err) \<Rightarrow>
                  if success then
                    Inr (True, ''Successfully banned '' @ sanitize_input ip @ '' ''
                           @ (if d = - 1 then ''permanently'' else ''for '' @ duration @ '' seconds'')
                           @ '' in jail '' @ sanitize_input jail)
                  else Inr (False, or_else err (''Failed to ban '' @ sanitize_input ip)))"
proof -
  have permanent: "d = - 1 \<Longrightarrow> duration = ''-1''"
    using assms(2) by (simp add: py_str_minus_one)
  show "snd (ban_ip_with_time run jail ip d s)
           = snd (safe_execute_command run
                    [client_path, ''set'', sanitize_input jail, ''banip'', sanitize_input ip]
                    (snd (safe_execute_command run
                            [client_path, ''set'', sanitize_input jail, ''bantime'', duration] s)))"
    using assms permanent
    by (cases "d = - 1") (simp_all add: ban_ip_with_time_def Let_def split: prod.splits)
  show "fst (ban_ip_with_time run jail ip d s)
           = (case fst (safe_execute_command run
                    [client_path, ''set'', sanitize_input jail, ''banip'', sanitize_input ip]
                    (snd (safe_execute_command run
                            [client_path, ''set'', sanitize_input jail, ''bantime'', duration] s))) of
                (success, out, err) \<Rightarrow>
                  if success then
                    Inr (True, ''Successfully banned '' @ sanitize_input ip @ '' ''
                           @ (if d = - 1 then ''permanently'' else ''for '' @ duration @ '' seconds'')
                           @ '' in jail '' @ sanitize_input jail)
                  else Inr (False, or_else err (''Failed to ban '' @ sanitize_input ip)))"
    using assms permanent
    by (cases "d = - 1") (simp_all add: ban_ip_with_time_def Let_def split: prod.splits)
qed

lemma host_safe_execute_command:
  "host (snd (safe_execute_command run command s)) = snd (run command (host s))"
  by (simp add: safe_execute_command_def split: prod.splits)

lemma fst_safe_execute_command_f2b_run:
  "key = ''bantime'' \<or> key = ''banip'' \<Longrightarrow>
   fst (fst (safe_execute_command f2b_run [prog, ''set'', jail, key, v] s))"
  by (auto simp: safe_execute_command_def f2b_run_def)

lemma ban_ip_with_time_Inl:
  assumes "validate_ip_address ip" and "py_str d = Inl e"
  shows "ban_ip_with_time run jail ip d s = (Inl e, s)"
proof -
  from assms(2) have "d \<noteq> - 1" by (auto simp: py_str_minus_one)
  with assms show ?thesis by (simp add: ban_ip_with_time_def Let_def)
qed

text \<open>
  C1, as the claim states it, fails: on the reference back end, a ban of 1.2.3.4 in jail
  sshd for 3600 seconds changes the ban time of the jail itself from 600 to 3600.
\<close>

theorem ban_ip_with_time_bantime_counterexample:
  "bantime (host f2b_init) ''sshd'' = ''600''
   \<and> bantime (host (snd (ban_ip_with_time f2b_run ''sshd'' ''1.2.3.4'' 3600 f2b_init))) ''sshd''
       = ''3600''"
  by code_simp

text \<open>
  C1, amended. With a valid \<open>ip\<close> and a duration of at most 4300 decimal digits,
  \<open>ban_ip_with_time\<close> executes exactly two commands, in this order:
  \<open>set <jail> bantime <str(duration)>\<close> and \<open>set <jail> banip <ip>\<close> (jail and ip sanitized).
  The duration is written to the ban time of the jail: on the reference back end the ban
  time of that jail becomes \<open>str(duration)\<close>, and the ban time of every other jail stays as
  it was. With a duration of more than 4300 digits \<open>str(duration)\<close> raises \<open>ValueError\<close>:
  the call raises it, no command is executed, and no ban time changes.
\<close>

theorem ban_ip_with_time_sets_jail_bantime:
  assumes "validate_ip_address ip"
  shows "(\<bar>d\<bar> < 10 ^ max_str_digits \<longrightarrow>
            issued (snd (ban_ip_with_time run jail ip d s))
              = issued s @ [[client_path, ''set'', sanitize_input jail, ''bantime'',
                               long_to_decimal_string d],
                            [client_path, ''set'', sanitize_input jail, ''banip'',
                               sanitize_input ip]]
            \<and> bantime (host (snd (ban_ip_with_time f2b_run jail ip d t)))
              = (bantime (host t))(sanitize_input jail := long_to_decimal_string d))
       \<and> (10 ^ max_str_digits \<le> \<bar>d\<bar> \<longrightarrow>
            ban_ip_with_time run jail ip d s = (Inl ValueError, s))"
proof (intro conjI impI)
  assume "\<bar>d\<bar> < 10 ^ max_str_digits"
  then have str: "py_str d = Inr (long_to_decimal_string d)" by (rule py_str_small)
  show "issued (snd (ban_ip_with_time run jail ip d s))
          = issued s @ [[client_path, ''set'', sanitize_input jail, ''bantime'',
                           long_to_decimal_string d],
                        [client_path, ''set'', sanitize_input jail, ''banip'',
                           sanitize_input ip]]"
    by (simp add: ban_ip_with_time_Inr(1) [OF assms str] issued_safe_execute_command)
  show "bantime (host (snd (ban_ip_with_time f2b_run jail ip d t)))
          = (bantime (host t))(sanitize_input jail := long_to_decimal_string d)"
    by (simp add: ban_ip_with_time_Inr(1) [OF assms str] host_safe_execute_command f2b_run_def)
next
  assume "10 ^ max_str_digits \<le> \<bar>d\<bar>"
  then have "py_str d = Inl ValueError" by (rule py_str_large)
  with assms show "ban_ip_with_time run jail ip d s = (Inl ValueError, s)"
    by (rule ban_ip_with_time_Inl)
qed

theorem ban_ip_with_time_sets_jail_bantime_witness:
  "validate_ip_address ''1.2.3.4''
   \<and> issued (snd (ban_ip_with_time f2b_run ''sshd'' ''1.2.3.4'' 3600 f2b_init))
       = [[''/usr/bin/fail2ban-client'', ''set'', ''sshd'', ''bantime'', ''3600''],
          [''/usr/bin/fail2ban-client'', ''set'', ''sshd'', ''banip'', ''1.2.3.4'']]
   \<and> bantime (host (snd (ban_ip_with_time f2b_run ''sshd'' ''1.2.3.4'' 3600 f2b_init))) ''sshd''
       = ''3600''
   \<and> ban_ip_with_time f2b_run ''sshd'' ''1.2.3.4'' (10 ^ max_str_digits) f2b_init
       = (Inl ValueError, f2b_init)"
proof -
  have h: "validate_ip_address ''1.2.3.4''" by code_simp
  have e: "sanitize_input ''sshd'' = ''sshd''" "sanitize_input ''1.2.3.4'' = ''1.2.3.4''"
    "long_to_decimal_string 3600 = ''3600''" "issued f2b_init = []"
    by code_simp+
  have small: "\<bar>3600::int\<bar> < 10 ^ max_str_digits" by (rule below_max_str_digits) simp
  have large: "(10::int) ^ max_str_digits \<le> \<bar>10 ^ max_str_digits\<bar>" by simp
  from ban_ip_with_time_sets_jail_bantime [OF h, of 3600 f2b_run "''sshd''" f2b_init f2b_init]
    small
  have a: "issued (snd (ban_ip_with_time f2b_run ''sshd'' ''1.2.3.4'' 3600 f2b_init))
       = issued f2b_init @ [[client_path, ''set'', sanitize_input ''sshd'', ''bantime'',
                               long_to_decimal_string 3600],
          [client_path, ''set'', sanitize_input ''sshd'', ''banip'', sanitize_input ''1.2.3.4'']]"
    and b: "bantime (host (snd (ban_ip_with_time f2b_run ''sshd'' ''1.2.3.4'' 3600 f2b_init)))
       = (bantime (host f2b_init))(sanitize_input ''sshd'' := long_to_decimal_string 3600)"
    by blast+
  from ban_ip_with_time_sets_jail_bantime
         [OF h, of "10 ^ max_str_digits" f2b_run "''sshd''" f2b_init f2b_init] large
  have c: "ban_ip_with_time f2b_run ''sshd'' ''1.2.3.4'' (10 ^ max_str_digits) f2b_init
       = (Inl ValueError, f2b_init)"
    by blast
  from h a b c show ?thesis by (simp add: e client_path_def)
qed

text \<open>
  C2, as the claim states it, fails for duration 0: the call neither unbans nor skips the
  ban. It sets the ban time of the jail to 0, executes \<open>banip\<close>, and reports success; on
  the reference back end a ban is recorded.
\<close>

theorem ban_ip_with_time_zero_counterexample:
  "fst (ban_ip_with_time f2b_run ''sshd'' ''1.2.3.4'' 0 f2b_init)
     = Inr (True, ''Successfully banned 1.2.3.4 for 0 seconds in jail sshd'')
   \<and> issued (snd (ban_ip_with_time f2b_run ''sshd'' ''1.2.3.4'' 0 f2b_init))
     = [[''/usr/bin/fail2ban-client'', ''set'', ''sshd'', ''bantime'', ''0''],
        [''/usr/bin/fail2ban-client'', ''set'', ''sshd'', ''banip'', ''1.2.3.4'']]
   \<and> bans (host f2b_init) = []
   \<and> bans (host (snd (ban_ip_with_time f2b_run ''sshd'' ''1.2.3.4'' 0 f2b_init)))
     = [(''sshd'', ''1.2.3.4'', ''0'')]"
  by code_simp

text \<open>
  C2, amended. With a valid \<open>ip\<close>, \<open>ban_ip_with_time\<close> hands every duration \<open>d\<close> of at most
  4300 decimal digits to the enforcement tool as the text \<open>str(d)\<close>: for \<open>d \<ge> 0\<close> the
  decimal digits that read back as \<open>d\<close> (\<open>0\<close> included), for \<open>d < 0\<close> a minus sign and the
  digits that read back as \<open>-d\<close> (\<open>-1\<close> for \<open>-1\<close>). It has no branch for 0: on the reference
  back end a ban with ban time \<open>str(d)\<close> is recorded for every such \<open>d\<close>, and the call
  reports success, with the word "permanently" exactly when \<open>d = -1\<close>. For a duration of
  more than 4300 digits \<open>str(d)\<close> raises \<open>ValueError\<close>: the call raises it, no command is
  executed and no ban is recorded.
\<close>

theorem ban_ip_with_time_duration_text:
  assumes "validate_ip_address ip"
  shows "(\<bar>d\<bar> < 10 ^ max_str_digits \<longrightarrow>
            bans (host (snd (ban_ip_with_time f2b_run jail ip d s)))
              = bans (host s) @ [(sanitize_input jail, sanitize_input ip, long_to_decimal_string d)]
            \<and> fst (ban_ip_with_time f2b_run jail ip d s)
              = Inr (True, ''Successfully banned '' @ sanitize_input ip @ '' ''
                       @ (if d = - 1 then ''permanently''
                          else ''for '' @ long_to_decimal_string d @ '' seconds'')
                       @ '' in jail '' @ sanitize_input jail)
            \<and> (if d < 0
                then \<exists>ds. long_to_decimal_string d = CHR ''-'' # ds \<and> int_base10 ds = - d
                else int_base10 (long_to_decimal_string d) = d))
       \<and> (10 ^ max_str_digits \<le> \<bar>d\<bar> \<longrightarrow>
            ban_ip_with_time f2b_run jail ip d s = (Inl ValueError, s))"
proof (intro conjI impI)
  assume "\<bar>d\<bar> < 10 ^ max_str_digits"
  then have str: "py_str d = Inr (long_to_decimal_string d)" by (rule py_str_small)
  show "bans (host (snd (ban_ip_with_time f2b_run jail ip d s)))
          = bans (host s) @ [(sanitize_input jail, sanitize_input ip, long_to_decimal_string d)]"
    by (simp add: ban_ip_with_time_Inr(1) [OF assms str] host_safe_execute_command f2b_run_def)
  let ?r = "fst (safe_execute_command f2b_run
                    [client_path, ''set'', sanitize_input jail, ''banip'', sanitize_input ip]
                    (snd (safe_execute_command f2b_run
                            [client_path, ''set'', sanitize_input jail, ''bantime'',
                               long_to_decimal_string d] s)))"
  have "fst ?r" by (rule fst_safe_execute_command_f2b_run) simp
  then obtain out err where r: "?r = (True, out, err)" by (cases ?r) auto
  show "fst (ban_ip_with_time f2b_run jail ip d s)
          = Inr (True, ''Successfully banned '' @ sanitize_input ip @ '' ''
                   @ (if d = - 1 then ''permanently''
                      else ''for '' @ long_to_decimal_string d @ '' seconds'')
                   @ '' in jail '' @ sanitize_input jail)"
    by (simp add: ban_ip_with_time_Inr(2) [OF assms str] r)
  show "if d < 0
        then \<exists>ds. long_to_decimal_string d = CHR ''-'' # ds \<and> int_base10 ds = - d
        else int_base10 (long_to_decimal_string d) = d"
    by (simp add: long_to_decimal_string_def int_base10_dec_digits)
next
  assume "10 ^ max_str_digits \<le> \<bar>d\<bar>"
  then have "py_str d = Inl ValueError" by (rule py_str_large)
  with assms show "ban_ip_with_time f2b_run jail ip d s = (Inl ValueError, s)"
    by (rule ban_ip_with_time_Inl)
qed

theorem ban_ip_with_time_duration_text_witness:
  "validate_ip_address ''10.0.0.5''
   \<and> bans (host (snd (ban_ip_with_time f2b_run ''sshd'' ''10.0.0.5'' (- 1) f2b_init)))
       = [(''sshd'', ''10.0.0.5'', ''-1'')]
   \<and> fst (ban_ip_with_time f2b_run ''sshd'' ''10.0.0.5'' (- 1) f2b_init)
       = Inr (True, ''Successfully banned 10.0.0.5 permanently in jail sshd'')
   \<and> ban_ip_with_time f2b_run ''sshd'' ''10.0.0.5'' (- (10 ^ max_str_digits)) f2b_init
       = (Inl ValueError, f2b_init)"
proof -
  have h: "validate_ip_address ''10.0.0.5''" by code_simp
  have e: "sanitize_input ''sshd'' = ''sshd''" "sanitize_input ''10.0.0.5'' = ''10.0.0.5''"
    "long_to_decimal_string (- 1) = ''-1''" "bans (host f2b_init) = []"
    by code_simp+
  have small: "\<bar>- 1::int\<bar> < 10 ^ max_str_digits" by (rule below_max_str_digits) simp
  have large: "(10::int) ^ max_str_digits \<le> \<bar>- (10 ^ max_str_digits)\<bar>" by simp
  from ban_ip_with_time_duration_text [OF h, of "- 1" "''sshd''" f2b_init] small
  have a: "bans (host (snd (ban_ip_with_time f2b_run ''sshd'' ''10.0.0.5'' (- 1) f2b_init)))
       = bans (host f2b_init)
           @ [(sanitize_input ''sshd'', sanitize_input ''10.0.0.5'', long_to_decimal_string (- 1))]"
    and b: "fst (ban_ip_with_time f2b_run ''sshd'' ''10.0.0.5'' (- 1) f2b_init)
       = Inr (True, ''Successfully banned '' @ sanitize_input ''10.0.0.5'' @ '' ''
                @ (if (- 1::int) = - 1 then ''permanently''
                   else ''for '' @ long_to_decimal_string (- 1) @ '' seconds'')
                @ '' in jail '' @ sanitize_input ''sshd'')"
    by blast+
  from ban_ip_with_time_duration_text [OF h, of "- (10 ^ max_str_digits)" "''sshd''" f2b_init]
    large
  have c: "ban_ip_with_time f2b_run ''sshd'' ''10.0.0.5'' (- (10 ^ max_str_digits)) f2b_init
       = (Inl ValueError, f2b_init)"
    by blast
  from h a b c show ?thesis by (simp add: e)
qed

section \<open>Facts about the matcher\<close>

lemma starts_with_iff: "starts_with p s \<longleftrightarrow> (\<exists>r. s = p @ r)"
  by (induction p s rule: starts_with.induct) auto

lemma contains_iff: "contains sub s \<longleftrightarrow> (\<exists>a b. s = a @ sub @ b)"
proof (induction s)
  case Nil
  then show ?case by auto
next
  case (Cons c cs)
  show ?case
  proof
    assume "contains sub (c # cs)"
    then consider "starts_with sub (c # cs)" | "contains sub cs" by auto
    then show "\<exists>a b. c # cs = a @ sub @ b"
    proof cases
      case 1
      then obtain r where "c # cs = sub @ r" by (auto simp: starts_with_iff)
      then have "c # cs = [] @ sub @ r" by simp
      then show ?thesis by blast
    next
      case 2
      with Cons obtain a b where "cs = a @ sub @ b" by auto
      then have "c # cs = (c # a) @ sub @ b" by simp
      then show ?thesis by blast
    qed
  next
    assume "\<exists>a b. c # cs = a @ sub @ b"
    then obtain a b where ab: "c # cs = a @ sub @ b" by auto
    show "contains sub (c # cs)"
    proof (cases a)
      case Nil
      with ab have "starts_with sub (c # cs)" by (auto simp: starts_with_iff)
      then show ?thesis by simp
    next
      case (Cons x a')
      with ab have "cs = a' @ sub @ b" by simp
      with Cons.IH have "contains sub cs" by blast
      then show ?thesis by simp
    qed
  qed
qed











lemma split_on_not_Nil: "split_on sep s \<noteq> []"
  by (induction s) (auto split: list.splits)








section \<open>Claims about the log-line parsers\<close>
















lemma parse_ban_line:
  "parse_log_line ''2024-01-01 10:00:00,000 fail2ban.actions [sshd] BAN 1.2.3.4''
     = Inr (Some \<lparr>be_timestamp = ''2024-01-01 10:00:00,000'', be_jail = ''sshd'',
                  be_ip = ''1.2.3.4'', be_action = ''ban'',
                  be_raw_line = ''2024-01-01 10:00:00,000 fail2ban.actions [sshd] BAN 1.2.3.4''\<rparr>)"
  by code_simp

lemma parse_unban_line:
  "parse_log_line ''2024-01-01 10:00:00,000 fail2ban.actions [sshd] UNBAN 1.2.3.4''
     = Inr (Some \<lparr>be_timestamp = ''2024-01-01 10:00:00,000'', be_jail = ''sshd'',
                  be_ip = ''1.2.3.4'', be_action = ''unban'',
                  be_raw_line = ''2024-01-01 10:00:00,000 fail2ban.actions [sshd] UNBAN 1.2.3.4''\<rparr>)"
  by code_simp

lemma parse_failed_password_line:
  "parse_ssh_log_line
     ''Jan 5 10:00:00 host sshd[123]: Failed password for invalid user admin from 10.0.0.5 port 22''
     = Inr (Some \<lparr>se_timestamp = ''Jan 5 10:00:00'', se_user = ''admin'', se_ip = ''10.0.0.5'',
                  se_action = ''failed_password'',
                  se_failure_type = Some ''Mot de passe incorrect'',
                  se_raw_line =
     ''Jan 5 10:00:00 host sshd[123]: Failed password for invalid user admin from 10.0.0.5 port 22''\<rparr>)"
  by code_simp

lemma parse_malformed_ip_line:
  "parse_ssh_log_line
     ''Jan 5 10:00:00 host sshd[123]: Failed password for invalid user admin from 10.0.0 port 22''
     = Inr None"
  by code_simp

text \<open>
  For the action \<open>failed\<close> the code reads the user from group 3 and the address from
  group 2 whenever the line contains \<open>authentication failure\<close>, also when the pattern that
  matched has them the other way round:
\<close>

lemma parse_failed_groups_swapped:
  "parse_ssh_log_line
     ''Jan 5 10:00:00 host sshd[123]: Failed publickey for bob from 10.0.0.5: authentication failure''
     = Inr (Some \<lparr>se_timestamp = ''Jan 5 10:00:00'', se_user = ''10.0.0.5'', se_ip = ''bob'',
                  se_action = ''failed'', se_failure_type = None,
                  se_raw_line =
     ''Jan 5 10:00:00 host sshd[123]: Failed publickey for bob from 10.0.0.5: authentication failure''\<rparr>)"
  by code_simp





text \<open>
  C6. The ban-log line of the claim parses to action \<open>ban\<close>, jail \<open>sshd\<close>, ip \<open>1.2.3.4\<close>; with
  \<open>UNBAN\<close> in place of \<open>BAN\<close> it parses to action \<open>unban\<close> for the same jail and ip.
\<close>

theorem parse_log_line_ban_unban:
  "(\<exists>e. parse_log_line ''2024-01-01 10:00:00,000 fail2ban.actions [sshd] BAN 1.2.3.4'' = Inr (Some e)
        \<and> be_action e = ''ban'' \<and> be_jail e = ''sshd'' \<and> be_ip e = ''1.2.3.4'')
   \<and> (\<exists>e. parse_log_line ''2024-01-01 10:00:00,000 fail2ban.actions [sshd] UNBAN 1.2.3.4'' = Inr (Some e)
        \<and> be_action e = ''unban'' \<and> be_jail e = ''sshd'' \<and> be_ip e = ''1.2.3.4'')"
  by (simp add: parse_ban_line parse_unban_line)

text \<open>
  C7. The auth-log line of the claim parses to action \<open>failed_password\<close>, user \<open>admin\<close>,
  ip \<open>10.0.0.5\<close>; with the malformed address \<open>10.0.0\<close> the parser returns \<open>None\<close>.
\<close>

theorem parse_ssh_log_line_failed_password:
  "(\<exists>e. parse_ssh_log_line
          ''Jan 5 10:00:00 host sshd[123]: Failed password for invalid user admin from 10.0.0.5 port 22''
          = Inr (Some e)
        \<and> se_action e = ''failed_password'' \<and> se_user e = ''admin'' \<and> se_ip e = ''10.0.0.5'')
   \<and> parse_ssh_log_line
          ''Jan 5 10:00:00 host sshd[123]: Failed password for invalid user admin from 10.0.0 port 22''
          = Inr None"
  by (simp add: parse_failed_password_line parse_malformed_ip_line)

section \<open>Claims about get\_jail\_status\<close>

lemma partition_on_found:
  "c \<in> set s \<Longrightarrow> \<exists>a b. partition_on c s = (a, [c], b)"
proof -
  assume "c \<in> set s"
  then have "dropWhile (\<lambda>x. x \<noteq> c) s \<noteq> []" by (simp add: dropWhile_eq_Nil_conv)
  then obtain x xs where d: "dropWhile (\<lambda>x. x \<noteq> c) s = x # xs"
    by (cases "dropWhile (\<lambda>x. x \<noteq> c) s") auto
  then have "x = c" using hd_dropWhile [of "\<lambda>x. x \<noteq> c" s] by auto
  with d show ?thesis by (simp add: partition_on_def)
qed

lemma split1_second_total:
  "c \<in> set s \<Longrightarrow> \<exists>v. split1_second c s = Inr v"
  using partition_on_found [of c s] by (auto simp: split1_second_def)

lemma contains_label_colon:
  assumes "contains (l @ '':'') s"
  shows "CHR '':'' \<in> set s"
proof -
  from assms obtain a b where "s = a @ (l @ '':'') @ b" unfolding contains_iff by blast
  then show ?thesis by simp
qed

lemma status_line_total: "\<exists>status'. status_line status line = Inr status'"
proof -
  have banned: "contains ''Banned IP list:'' line \<Longrightarrow> CHR '':'' \<in> set line"
    using contains_label_colon [of "''Banned IP list''" line] by simp
  show ?thesis
    using split1_second_total [of "CHR '':''" line] banned
    by (auto simp: status_line_def contains_char_def Let_def split: sum.splits option.splits)
qed

lemma status_lines_total: "\<exists>status'. status_lines status lines = Inr status'"
proof (induction lines arbitrary: status)
  case Nil
  then show ?case by simp
next
  case (Cons l ls)
  obtain st1 where "status_line status (strip l) = Inr st1" using status_line_total by blast
  with Cons show ?case by simp
qed

lemma status_line_fixed:
  assumes "status_line status line = Inr status'"
  shows "js_name status' = js_name status \<and> js_enabled status' = js_enabled status"
  using assms
  by (auto simp: status_line_def Let_def split: if_splits sum.splits option.splits)

lemma status_line_keeps:
  assumes "status_line status line = Inr status'"
  shows "(\<not> (contains ''Filter'' line \<and> contains_char (CHR '':'') line)
            \<longrightarrow> js_filter status' = js_filter status)"
    and "(\<not> (contains ''Actions'' line \<and> contains_char (CHR '':'') line)
            \<longrightarrow> js_actions status' = js_actions status)"
    and "((contains ''Currently failed:'' line \<longrightarrow> parse_counter line = None)
            \<longrightarrow> js_currently_failed status' = js_currently_failed status)"
    and "((contains ''Total failed:'' line \<longrightarrow> parse_counter line = None)
            \<longrightarrow> js_total_failed status' = js_total_failed status)"
    and "((contains ''Currently banned:'' line \<longrightarrow> parse_counter line = None)
            \<longrightarrow> js_currently_banned status' = js_currently_banned status)"
    and "((contains ''Total banned:'' line \<longrightarrow> parse_counter line = None)
            \<longrightarrow> js_total_banned status' = js_total_banned status)"
    and "(\<not> contains ''Banned IP list:'' line
            \<longrightarrow> js_banned_ips status' = js_banned_ips status)"
  using assms
  by (auto simp: status_line_def Let_def split: if_splits sum.splits option.splits)

lemma status_lines_keeps:
  assumes "status_lines status lines = Inr status'"
  shows "js_name status' = js_name status \<and> js_enabled status' = js_enabled status
    \<and> (list_all (\<lambda>l. \<not> (contains ''Filter'' l \<and> contains_char (CHR '':'') l)) (map strip lines)
          \<longrightarrow> js_filter status' = js_filter status)
    \<and> (list_all (\<lambda>l. \<not> (contains ''Actions'' l \<and> contains_char (CHR '':'') l)) (map strip lines)
          \<longrightarrow> js_actions status' = js_actions status)
    \<and> (list_all (\<lambda>l. contains ''Currently failed:'' l \<longrightarrow> parse_counter l = None) (map strip lines)
          \<longrightarrow> js_currently_failed status' = js_currently_failed status)
    \<and> (list_all (\<lambda>l. contains ''Total failed:'' l \<longrightarrow> parse_counter l = None) (map strip lines)
          \<longrightarrow> js_total_failed status' = js_total_failed status)
    \<and> (list_all (\<lambda>l. contains ''Currently banned:'' l \<longrightarrow> parse_counter l = None) (map strip lines)
          \<longrightarrow> js_currently_banned status' = js_currently_banned status)
    \<and> (list_all (\<lambda>l. contains ''Total banned:'' l \<longrightarrow> parse_counter l = None) (map strip lines)
          \<longrightarrow> js_total_banned status' = js_total_banned status)
    \<and> (list_all (\<lambda>l. \<not> contains ''Banned IP list:'' l) (map strip lines)
          \<longrightarrow> js_banned_ips status' = js_banned_ips status)"
  using assms
proof (induction lines arbitrary: status)
  case Nil
  then show ?case by simp
next
  case (Cons l ls)
  obtain st1 where 1: "status_line status (strip l) = Inr st1" using status_line_total by blast
  with Cons.prems have 2: "status_lines st1 ls = Inr status'" by simp
  note k = status_line_keeps [OF 1] status_line_fixed [OF 1]
  note ih = Cons.IH [OF 2]
  show ?case
    using k ih by (simp del: contains.simps)
qed

text \<open>
  C9. \<open>get_jail_status\<close> never raises, whatever the command does and prints. When the
  command succeeds with output \<open>out\<close>, the result is a full status record with the name of
  the jail and \<open>enabled = True\<close>, in which a counter is 0 when no line that carries its
  label yields a number (no such line at all, or none with digits that \<open>int\<close> accepts), the
  filter is the empty string when no line has \<open>Filter\<close> and a colon, the actions are the
  empty list when no line has \<open>Actions\<close> and a colon, and the banned IPs are the empty list
  when no line has \<open>Banned IP list:\<close>. The statement is about every text, so about every
  order of the lines and every subset of the labels.
\<close>

theorem get_jail_status_defaults:
  "\<exists>info. fst (get_jail_status run jail s) = Inr info
     \<and> (\<forall>out err h'. run [client_path, ''status'', jail] (host s) = (Completed 0 out err, h')
          \<longrightarrow> (\<exists>st. info = JailStatus st \<and> js_name st = jail \<and> js_enabled st
                    \<and> status_defaults out st))"
proof -
  obtain outcome h1 where r: "run [client_path, ''status'', jail] (host s) = (outcome, h1)"
    by (cases "run [client_path, ''status'', jail] (host s)") auto
  show ?thesis
  proof (cases "\<exists>out err. outcome = Completed 0 out err")
    case False
    then have "fst (get_jail_status run jail s)
                 = Inr (JailError jail (or_else (case outcome of Completed rc out err \<Rightarrow> err
                      | TimeoutExpired \<Rightarrow> ''Command timed out'' | Raised e \<Rightarrow> e)
                      ''Failed to get jail status''))"
      using r by (cases outcome) (auto simp: get_jail_status_def safe_execute_command_def)
    moreover from False r have
      "\<And>out err h'. run [client_path, ''status'', jail] (host s) \<noteq> (Completed 0 out err, h')"
      by auto
    ultimately show ?thesis by simp
  next
    case True
    then obtain out err where o: "outcome = Completed 0 out err" by blast
    obtain st where st: "status_lines (initial_status jail) (split_on (CHR 0x0A) out) = Inr st"
      using status_lines_total by blast
    from r o st have res: "fst (get_jail_status run jail s) = Inr (JailStatus st)"
      by (simp add: get_jail_status_def safe_execute_command_def)
    note k = status_lines_keeps [OF st, folded status_text_lines_def]
    have "js_name st = jail \<and> js_enabled st \<and> status_defaults out st"
      unfolding status_defaults_def using k by (simp add: initial_status_def)
    with res r o show ?thesis by auto
  qed
qed

lemma sample_status_absent:
  "list_all (\<lambda>l. \<not> (contains ''Filter'' l \<and> contains_char (CHR '':'') l))
     (status_text_lines sample_status)"
  "list_all (\<lambda>l. \<not> (contains ''Actions'' l \<and> contains_char (CHR '':'') l))
     (status_text_lines sample_status)"
  "list_all (\<lambda>l. contains ''Currently failed:'' l \<longrightarrow> parse_counter l = None)
     (status_text_lines sample_status)"
  "list_all (\<lambda>l. contains ''Total failed:'' l \<longrightarrow> parse_counter l = None)
     (status_text_lines sample_status)"
  "list_all (\<lambda>l. contains ''Currently banned:'' l \<longrightarrow> parse_counter l = None)
     (status_text_lines sample_status)"
  "list_all (\<lambda>l. contains ''Total banned:'' l \<longrightarrow> parse_counter l = None)
     (status_text_lines sample_status)"
  "list_all (contains ''Total failed:'') (status_text_lines sample_status) = False"
  by code_simp+

theorem get_jail_status_defaults_witness:
  "list_all (\<lambda>l. contains ''Total failed:'' l \<longrightarrow> parse_counter l = None)
     (status_text_lines sample_status)
   \<and> (\<exists>st. fst (get_jail_status (fixed_output sample_status) ''sshd'' \<lparr>issued = [], host = ()\<rparr>)
             = Inr (JailStatus st)
        \<and> js_name st = ''sshd'' \<and> js_enabled st \<and> js_filter st = [] \<and> js_actions st = []
        \<and> js_currently_failed st = 0 \<and> js_total_failed st = 0
        \<and> js_currently_banned st = 0 \<and> js_total_banned st = 0)"
proof -
  have run: "fixed_output sample_status [client_path, ''status'', ''sshd'']
               (host \<lparr>issued = [], host = ()\<rparr>) = (Completed 0 sample_status [], ())"
    by (simp add: fixed_output_def)
  from get_jail_status_defaults
    [of "fixed_output sample_status" "''sshd''" "\<lparr>issued = [], host = ()\<rparr>"]
  obtain info where ia: "fst (get_jail_status (fixed_output sample_status) ''sshd''
                              \<lparr>issued = [], host = ()\<rparr>) = Inr info
     \<and> (\<forall>out err h'. fixed_output sample_status [client_path, ''status'', ''sshd'']
               (host \<lparr>issued = [], host = ()\<rparr>) = (Completed 0 out err, h')
          \<longrightarrow> (\<exists>st. info = JailStatus st \<and> js_name st = ''sshd'' \<and> js_enabled st
                    \<and> status_defaults out st))" ..
  then have "\<exists>st. info = JailStatus st \<and> js_name st = ''sshd'' \<and> js_enabled st
                    \<and> status_defaults sample_status st"
    using run by blast
  then obtain st where st: "info = JailStatus st" "js_name st = ''sshd''" "js_enabled st"
    and d: "status_defaults sample_status st" by blast
  from d sample_status_absent(1-6) have "js_filter st = [] \<and> js_actions st = []
        \<and> js_currently_failed st = 0 \<and> js_total_failed st = 0
        \<and> js_currently_banned st = 0 \<and> js_total_banned st = 0"
    unfolding status_defaults_def by blast
  with ia st sample_status_absent(4) show ?thesis by blast
qed

section \<open>Claims about get\_ip\_geolocation\<close>

lemma in_disjoint_network:
  assumes "in_network a l" "disjoint_networks l e"
  shows "\<not> in_network a e"
proof
  assume e: "in_network a e"
  obtain v1 n1 m1 where l: "l = Network v1 n1 m1" by (cases l) auto
  obtain v2 n2 m2 where e2: "e = Network v2 n2 m2" by (cases e) auto
  obtain ip where ip: "ip AND m1 = n1" "ip AND m2 = n2"
    using assms(1) e l e2 by (cases a) auto
  have "n1 AND m2 = (ip AND m1) AND m2" using ip by simp
  also have "\<dots> = (ip AND m2) AND m1" by (simp add: ac_simps)
  also have "\<dots> = n2 AND m1" using ip by simp
  finally show False using assms(2) l e2 by simp
qed

lemma v4_special_networks:
  "list_all (\<lambda>l. list_ex (\<lambda>p. p = l) v4_private_networks
              \<and> list_all (disjoint_networks l) v4_private_networks_exceptions)
     (v4_loopback_network @ v4_linklocal_network)"
  by code_simp

lemma v6_special_networks:
  "list_all (\<lambda>l. list_ex (\<lambda>p. p = l) v6_private_networks
              \<and> list_all (disjoint_networks l) v6_private_networks_exceptions)
     v6_linklocal_network"
  by code_simp

lemma in_special_network:
  assumes "in_network a l" "list_ex (\<lambda>p. p = l) ps" "list_all (disjoint_networks l) es"
  shows "list_ex (in_network a) ps \<and> list_all (\<lambda>net. \<not> in_network a net) es"
proof
  from assms(1,2) show "list_ex (in_network a) ps" by (auto simp: list_ex_iff)
  from assms(1,3) show "list_all (\<lambda>net. \<not> in_network a net) es"
    using in_disjoint_network by (auto simp: list_all_iff)
qed

lemma v4_special_private:
  assumes "list_ex (in_network (IPv4 ip)) (v4_loopback_network @ v4_linklocal_network)"
  shows "v4_is_private ip"
proof -
  from assms obtain l where l: "l \<in> set (v4_loopback_network @ v4_linklocal_network)"
    and i: "in_network (IPv4 ip) l" by (auto simp: list_ex_iff)
  from l v4_special_networks have "list_ex (\<lambda>p. p = l) v4_private_networks"
    and "list_all (disjoint_networks l) v4_private_networks_exceptions"
    unfolding list_all_iff by blast+
  with i show ?thesis unfolding v4_is_private_def by (rule in_special_network)
qed

lemma v6_loopback_networks:
  "list_ex (in_network (IPv6 1 None)) v6_private_networks
   \<and> list_all (\<lambda>net. \<not> in_network (IPv6 1 None) net) v6_private_networks_exceptions"
  by code_simp

lemma in_network_scope: "in_network (IPv6 ip scope_id) = in_network (IPv6 ip None)"
proof
  fix net show "in_network (IPv6 ip scope_id) net = in_network (IPv6 ip None) net"
    by (cases net) simp
qed

lemma v6_linklocal_value: "v6_linklocal_network = [Network 6 (0xFE80 * 2 ^ 112) (1023 * 2 ^ 118)]"
  by code_simp

lemma v6_linklocal_not_mapped:
  assumes "in_network (IPv6 ip scope_id) (Network 6 (0xFE80 * 2 ^ 112) (1023 * 2 ^ 118))"
  shows "drop_bit 32 ip \<noteq> (0xFFFF :: int)"
proof
  assume m: "drop_bit 32 ip = (0xFFFF :: int)"
  have "drop_bit 118 ip = drop_bit 86 (drop_bit 32 ip)" by simp
  also have "\<dots> = 0" unfolding m by (simp add: drop_bit_eq_div)
  finally have z: "drop_bit 118 ip = 0" .
  from assms have "ip AND (1023 * 2 ^ 118) = 0xFE80 * 2 ^ 112" by simp
  then have "drop_bit 118 (ip AND (1023 * 2 ^ 118)) = drop_bit 118 (0xFE80 * 2 ^ 112 :: int)"
    by simp
  then have "drop_bit 118 ip AND drop_bit 118 (1023 * 2 ^ 118 :: int)
               = drop_bit 118 (0xFE80 * 2 ^ 112 :: int)"
    by (simp only: drop_bit_and)
  with z have "drop_bit 118 (0xFE80 * 2 ^ 112 :: int) = 0" by simp
  then show False by (simp add: drop_bit_eq_div)
qed

lemma special_is_private:
  assumes "is_loopback a \<or> is_link_local a"
  shows "is_private a"
proof (cases a)
  case (IPv4 ip)
  with assms have "list_ex (in_network (IPv4 ip)) (v4_loopback_network @ v4_linklocal_network)"
    by (auto simp: list_ex_iff)
  with IPv4 show ?thesis using v4_special_private by simp
next
  case (IPv6 ip scope_id)
  from assms IPv6 consider "ip = 1" | "list_ex (in_network (IPv6 ip scope_id)) v6_linklocal_network"
    by auto
  then show ?thesis
  proof cases
    case 1
    have "drop_bit 32 (1 :: int) \<noteq> 0xFFFF" by simp
    with 1 IPv6 v6_loopback_networks show ?thesis
      by (simp add: in_network_scope [of 1 scope_id])
  next
    case 2
    then have i: "in_network (IPv6 ip scope_id) (Network 6 (0xFE80 * 2 ^ 112) (1023 * 2 ^ 118))"
      unfolding v6_linklocal_value by simp
    then have nm: "drop_bit 32 ip \<noteq> (0xFFFF :: int)" by (rule v6_linklocal_not_mapped)
    have l: "Network 6 (0xFE80 * 2 ^ 112) (1023 * 2 ^ 118) \<in> set v6_linklocal_network"
      unfolding v6_linklocal_value by simp
    with v6_special_networks have
      "list_ex (\<lambda>p. p = Network 6 (0xFE80 * 2 ^ 112) (1023 * 2 ^ 118)) v6_private_networks"
      and "list_all (disjoint_networks (Network 6 (0xFE80 * 2 ^ 112) (1023 * 2 ^ 118)))
             v6_private_networks_exceptions"
      unfolding list_all_iff by blast+
    with i have "list_ex (in_network (IPv6 ip scope_id)) v6_private_networks
        \<and> list_all (\<lambda>net. \<not> in_network (IPv6 ip scope_id) net) v6_private_networks_exceptions"
      by (rule in_special_network)
    with nm IPv6 show ?thesis by simp
  qed
qed

lemma cache_consistent_call:
  assumes "cache_consistent s"
  shows "cache_consistent (snd (get_ip_geolocation fetch current_time ip s))"
proof (cases "validate_ip_address ip \<and> cache_hit ip current_time s = None")
  case False
  then have "snd (get_ip_geolocation fetch current_time ip s) = s"
    by (auto simp: get_ip_geolocation_def split: option.splits)
  with assms show ?thesis by simp
next
  case True
  let ?priv = "case ipaddress_ip_address ip of Some ip_obj \<Rightarrow> is_private ip_obj | None \<Rightarrow> False"
  show ?thesis
  proof (cases ?priv)
    case p: True
    with True have "snd (get_ip_geolocation fetch current_time ip s)
                      = cache_put ip local_geo_info current_time s"
      by (simp add: get_ip_geolocation_def)
    with assms show ?thesis by (auto simp: cache_consistent_def cache_put_def)
  next
    case np: False
    obtain outcome n' where f: "fetch (IP_API_URL @ ip) (network s) = (outcome, n')"
      by (cases "fetch (IP_API_URL @ ip) (network s)") auto
    define s1 where "s1 = s\<lparr>requested := requested s @ [IP_API_URL @ ip], network := n'\<rparr>"
    from True np f have
      "snd (get_ip_geolocation fetch current_time ip s)
         = cache_put ip (case geo_from_response outcome of Some g \<Rightarrow> g
                          | None \<Rightarrow> get_default_geo_info) current_time s1"
      by (cases "geo_from_response outcome") (simp_all add: get_ip_geolocation_def Let_def s1_def)
    then obtain geo where
      "snd (get_ip_geolocation fetch current_time ip s) = cache_put ip geo current_time s1"
      by blast
    moreover have "cache_consistent (cache_put ip geo current_time s1)"
      using assms np
      by (auto simp: cache_consistent_def cache_put_def s1_def split: option.splits)
    ultimately show ?thesis by simp
  qed
qed

lemma reachable_cache_consistent: "reachable s \<Longrightarrow> cache_consistent s"
proof (induction rule: reachable.induct)
  case (start rs n)
  then show ?case by (simp add: cache_consistent_def)
next
  case (call s fetch current_time ip)
  from call.IH show ?case by (rule cache_consistent_call)
qed

text \<open>
  C8. In every state the module can be in, for every string that is an address which is
  private, loopback or link-local, \<open>get_ip_geolocation\<close> returns the local-network dict and
  makes no request: the log of requested URLs and the network are as before the call.
\<close>

theorem private_ip_no_request:
  assumes "reachable s"
    and "ipaddress_ip_address ip = Some ip_obj"
    and "is_private ip_obj \<or> is_loopback ip_obj \<or> is_link_local ip_obj"
  shows "fst (get_ip_geolocation fetch current_time ip s) = local_geo_info
       \<and> requested (snd (get_ip_geolocation fetch current_time ip s)) = requested s
       \<and> network (snd (get_ip_geolocation fetch current_time ip s)) = network s"
proof -
  from assms(3) have p: "is_private ip_obj" using special_is_private by blast
  from assms(2) have v: "validate_ip_address ip" by (simp add: validate_ip_address_def)
  from assms(1) have c: "cache_consistent s" by (rule reachable_cache_consistent)
  show ?thesis
  proof (cases "cache_hit ip current_time s")
    case None
    with v p assms(2) show ?thesis by (simp add: get_ip_geolocation_def cache_put_def)
  next
    case (Some geo)
    then have "geolocation_cache s ip = Some geo"
      by (auto simp: cache_hit_def split: option.splits if_splits)
    with c p assms(2) have "geo = local_geo_info" unfolding cache_consistent_def by blast
    with v Some show ?thesis by (simp add: get_ip_geolocation_def)
  qed
qed

theorem private_ip_no_request_witness:
  "reachable \<lparr>geolocation_cache = Map.empty, cache_timestamps = Map.empty,
              requested = [], network = ()\<rparr>
   \<and> ipaddress_ip_address ''192.168.1.1'' = Some (IPv4 3232235777)
   \<and> is_private (IPv4 3232235777)
   \<and> fst (get_ip_geolocation (\<lambda>url n. (RequestFailed, n)) 0 ''192.168.1.1''
            \<lparr>geolocation_cache = Map.empty, cache_timestamps = Map.empty,
             requested = [], network = ()\<rparr>) = local_geo_info
   \<and> requested (snd (get_ip_geolocation (\<lambda>url n. (RequestFailed, n)) 0 ''192.168.1.1''
            \<lparr>geolocation_cache = Map.empty, cache_timestamps = Map.empty,
             requested = [], network = ()\<rparr>)) = []"
proof -
  let ?s = "\<lparr>geolocation_cache = Map.empty, cache_timestamps = Map.empty,
              requested = [], network = ()\<rparr>"
  have r: "reachable ?s" by (rule reachable.start)
  have a: "ipaddress_ip_address ''192.168.1.1'' = Some (IPv4 3232235777)" by code_simp
  have p: "is_private (IPv4 3232235777)" by code_simp
  then have d: "is_private (IPv4 3232235777) \<or> is_loopback (IPv4 3232235777)
                  \<or> is_link_local (IPv4 3232235777)" by simp
  from private_ip_no_request [OF r a d, of "\<lambda>url n. (RequestFailed, n)" 0] r a p
  show ?thesis by simp
qed

section \<open>Claims about validate\_ip\_address\<close>

lemma in_split_on:
  "c \<in> set s \<Longrightarrow> c = sep \<or> (\<exists>p \<in> set (split_on sep s). c \<in> set p)"
proof (induction s)
  case Nil
  then show ?case by simp
next
  case (Cons x xs)
  obtain p ps where sp: "split_on sep xs = p # ps"
    using split_on_not_Nil [of sep xs] by (cases "split_on sep xs") auto
  show ?case
  proof (cases "x = sep")
    case True
    with Cons show ?thesis by auto
  next
    case False
    with sp have s: "split_on sep (x # xs) = (x # p) # ps" by simp
    from Cons.prems consider "c = x" | "c \<in> set xs" by auto
    then show ?thesis
    proof cases
      case 1
      with s show ?thesis by simp
    next
      case 2
      with Cons.IH sp have "c = sep \<or> c \<in> set p \<or> (\<exists>q \<in> set ps. c \<in> set q)" by auto
      with s show ?thesis by auto
    qed
  qed
qed

lemma those_map_Some:
  "those (map f ps) = Some ys \<Longrightarrow> p \<in> set ps \<Longrightarrow> f p \<noteq> None"
  by (induction ps arbitrary: ys) (auto split: option.splits)

lemma parse_octet_digits: "parse_octet p \<noteq> None \<Longrightarrow> list_all is_ascii_digit p"
  by (auto simp: parse_octet_def split: if_splits)

lemma parse_hextet_hex: "parse_hextet p \<noteq> None \<Longrightarrow> list_all is_hex_digit p"
  by (auto simp: parse_hextet_def split: if_splits)

lemma digit_is_hex: "is_ascii_digit c \<Longrightarrow> is_hex_digit c"
  by (simp add: is_ascii_digit_def is_hex_digit_def hex_value_def)

lemma IPv4Address_chars:
  assumes "IPv4Address s = Some a"
  shows "list_all addr_char s"
proof -
  from assms have "ipv4_int_from_string s = Some a"
    by (simp add: IPv4Address_def split: if_splits)
  then have "map_option from_bytes_big (those (map parse_octet (split_on (CHR ''.'') s))) = Some a"
    unfolding ipv4_int_from_string_def Let_def by (simp split: if_splits)
  then obtain bs where t: "those (map parse_octet (split_on (CHR ''.'') s)) = Some bs"
    by blast
  have "addr_char c" if "c \<in> set s" for c
  proof -
    from in_split_on [OF that, of "CHR ''.''"]
    consider "c = CHR ''.''" | p where "p \<in> set (split_on (CHR ''.'') s)" "c \<in> set p"
      by auto
    then show ?thesis
    proof cases
      case 1
      then show ?thesis by (simp add: addr_char_def)
    next
      case 2
      from t 2(1) have "parse_octet p \<noteq> None" by (rule those_map_Some)
      then have "list_all is_ascii_digit p" by (rule parse_octet_digits)
      with 2 have "is_ascii_digit c" by (simp add: list_all_iff)
      then show ?thesis by (simp add: addr_char_def digit_is_hex)
    qed
  qed
  then show ?thesis by (simp add: list_all_iff)
qed

lemma parse_hextets_hex:
  assumes "parse_hextets ps v = Some a" and "p \<in> set ps"
  shows "list_all is_hex_digit p"
proof -
  from assms(1) obtain hs where "those (map parse_hextet ps) = Some hs"
    unfolding parse_hextets_def by blast
  from this assms(2) have "parse_hextet p \<noteq> None" by (rule those_map_Some)
  then show ?thesis by (rule parse_hextet_hex)
qed

lemma ipv6_int_from_parts_hex:
  assumes "ipv6_int_from_parts parts = Some a" and "i < length parts"
  shows "list_all is_hex_digit (parts ! i)"
proof -
  define empties where "empties = filter (\<lambda>i. parts ! i = []) [1 ..< length parts - 1]"
  show ?thesis
  proof (cases empties)
    case Nil
    with assms(1) have "parse_hextets parts 0 = Some a"
      by (auto simp: ipv6_int_from_parts_def Let_def empties_def split: if_splits)
    moreover from assms(2) have "parts ! i \<in> set parts" by simp
    ultimately show ?thesis by (rule parse_hextets_hex)
  next
    case (Cons k more)
    then have "k \<in> set empties" by simp
    then have k: "parts ! k = []" "1 \<le> k" "k < length parts - 1"
      by (auto simp: empties_def)
    define parts_hi where "parts_hi = (if hd parts = [] then k - 1 else k)"
    define parts_lo where "parts_lo = (if last parts = [] then length parts - k - 1 - 1
                            else length parts - k - 1)"
    have body: "(if hd parts = [] \<and> parts_hi \<noteq> 0 then None
               else if last parts = [] \<and> parts_lo \<noteq> 0 then None
               else if 8 - (int parts_hi + int parts_lo) < 1 then None
               else (case parse_hextets (take parts_hi parts) 0 of
                       None \<Rightarrow> None
                     | Some hi \<Rightarrow>
                         parse_hextets (drop (length parts - parts_lo) parts)
                           (hi * 2 ^ (16 * (8 - (parts_hi + parts_lo)))))) = Some a"
      using assms(1) Cons
      unfolding ipv6_int_from_parts_def Let_def empties_def [symmetric] parts_hi_def parts_lo_def
      by (simp split: if_splits)
    from body have h0: "\<not> (hd parts = [] \<and> parts_hi \<noteq> 0)" by (simp split: if_splits)
    from body have l0: "\<not> (last parts = [] \<and> parts_lo \<noteq> 0)" by (simp split: if_splits)
    from body h0 l0 have "(case parse_hextets (take parts_hi parts) 0 of
                       None \<Rightarrow> None
                     | Some hi \<Rightarrow>
                         parse_hextets (drop (length parts - parts_lo) parts)
                           (hi * 2 ^ (16 * (8 - (parts_hi + parts_lo))))) = Some a"
      by (simp split: if_splits)
    then obtain hi where
      hi: "parse_hextets (take parts_hi parts) 0 = Some hi" and
      lo: "parse_hextets (drop (length parts - parts_lo) parts)
             (hi * 2 ^ (16 * (8 - (parts_hi + parts_lo)))) = Some a"
      by (cases "parse_hextets (take parts_hi parts) 0") simp_all
    from k have ne: "parts \<noteq> []" by auto
    consider "i < parts_hi" | "length parts - parts_lo \<le> i" | "parts_hi \<le> i" "i < length parts - parts_lo"
      by linarith
    then show ?thesis
    proof cases
      case 1
      with assms(2) have "i < length (take parts_hi parts)" by simp
      then have "take parts_hi parts ! i \<in> set (take parts_hi parts)" by (rule nth_mem)
      with 1 have "parts ! i \<in> set (take parts_hi parts)" by simp
      with hi show ?thesis by (rule parse_hextets_hex)
    next
      case 2
      define j where "j = i - (length parts - parts_lo)"
      from 2 assms(2) have j: "j < length (drop (length parts - parts_lo) parts)"
        and ij: "length parts - parts_lo + j = i" unfolding j_def by auto
      from j have "drop (length parts - parts_lo) parts ! j
                     \<in> set (drop (length parts - parts_lo) parts)" by (rule nth_mem)
      moreover have "drop (length parts - parts_lo) parts ! j = parts ! i"
        using ij assms(2) by (simp add: nth_drop)
      ultimately have "parts ! i \<in> set (drop (length parts - parts_lo) parts)" by simp
      with lo show ?thesis by (rule parse_hextets_hex)
    next
      case 3
      have "parts ! i = []"
      proof (cases "i = k")
        case True
        with k show ?thesis by simp
      next
        case False
        show ?thesis
        proof (cases "i < k")
          case True
          with 3 have "parts_hi < k" by simp
          then have hd: "hd parts = []" unfolding parts_hi_def by (auto split: if_splits)
          with h0 have "parts_hi = 0" by simp
          with hd have "k = 1" unfolding parts_hi_def using k by simp
          with True have "i = 0" by simp
          with hd ne show ?thesis by (simp add: hd_conv_nth)
        next
          case f: False
          with False have gt: "k < i" by simp
          with 3 assms(2) have "parts_lo < length parts - k - 1" by linarith
          then have la: "last parts = []" unfolding parts_lo_def by (auto split: if_splits)
          with l0 have "parts_lo = 0" by simp
          with la have "length parts - k - 1 - 1 = 0" unfolding parts_lo_def by simp
          with gt assms(2) have "i = length parts - 1" by linarith
          with la ne show ?thesis by (simp add: last_conv_nth)
        qed
      qed
      then show ?thesis by simp
    qed
  qed
qed

lemma hex_is_addr_char: "list_all is_hex_digit p \<Longrightarrow> list_all addr_char p"
  by (simp add: list_all_iff addr_char_def)

lemma ipv6_int_from_string_chars:
  assumes "ipv6_int_from_string addr = Some a"
  shows "list_all addr_char addr"
proof -
  define parts where "parts = split_on (CHR '':'') addr"
  from assms obtain parts' where v: "v4_suffix parts = Some parts'"
    and f: "ipv6_int_from_parts parts' = Some a"
    by (auto simp: ipv6_int_from_string_def Let_def parts_def split: if_splits option.splits)
  have ne: "parts \<noteq> []" unfolding parts_def by (rule split_on_not_Nil)
  have hex': "list_all is_hex_digit q" if "q \<in> set parts'" for q
  proof -
    from that obtain i where "i < length parts'" "parts' ! i = q"
      unfolding in_set_conv_nth by blast
    with ipv6_int_from_parts_hex [OF f, of i] show ?thesis by simp
  qed
  have part: "list_all addr_char p" if p: "p \<in> set parts" for p
  proof (cases "contains_char (CHR ''.'') (last parts)")
    case False
    with v have "parts' = parts" by (simp add: v4_suffix_def)
    with p have "list_all is_hex_digit p" by (simp add: hex')
    then show ?thesis by (rule hex_is_addr_char)
  next
    case True
    with v obtain n where n: "IPv4Address (last parts) = Some n"
      and ps: "parts' = butlast parts @ [format_hex ((n div 65536) mod 65536),
                                    format_hex (n mod 65536)]"
      by (auto simp: v4_suffix_def split: option.splits)
    from ne have "parts = butlast parts @ [last parts]" by simp
    then have "set parts = set (butlast parts) \<union> {last parts}"
      by (metis set_append list.set(1) list.set(2))
    with p consider "p \<in> set (butlast parts)" | "p = last parts" by auto
    then show ?thesis
    proof cases
      case 1
      with ps have "p \<in> set parts'" by simp
      then have "list_all is_hex_digit p" by (rule hex')
      then show ?thesis by (rule hex_is_addr_char)
    next
      case 2
      from n have "list_all addr_char (last parts)" by (rule IPv4Address_chars)
      with 2 show ?thesis by simp
    qed
  qed
  have "addr_char c" if "c \<in> set addr" for c
  proof -
    from in_split_on [OF that, of "CHR '':''"]
    consider "c = CHR '':''" | p where "p \<in> set parts" "c \<in> set p"
      unfolding parts_def by auto
    then show ?thesis
    proof cases
      case 1
      then show ?thesis by (simp add: addr_char_def)
    next
      case 2
      with part show ?thesis by (auto simp: list_all_iff)
    qed
  qed
  then show ?thesis by (simp add: list_all_iff)
qed

lemma split_scope_id_addr:
  "split_scope_id s = Some (addr, scope_id) \<Longrightarrow> addr = takeWhile (\<lambda>c. c \<noteq> CHR ''%'') s"
proof -
  assume a: "split_scope_id s = Some (addr, scope_id)"
  show ?thesis
  proof (cases "dropWhile (\<lambda>c. c \<noteq> CHR ''%'') s")
    case Nil
    then have "\<forall>x\<in>set s. x \<noteq> CHR ''%''" by (simp add: dropWhile_eq_Nil_conv)
    then have tw: "takeWhile (\<lambda>c. c \<noteq> CHR ''%'') s = s" by (simp add: takeWhile_eq_all_conv)
    from a Nil have "addr = s" by (simp add: split_scope_id_def partition_on_def)
    with tw show ?thesis by metis
  next
    case (Cons x xs)
    with a show ?thesis
      by (simp add: split_scope_id_def partition_on_def split: if_splits)
  qed
qed

lemma validate_ip_address_chars:
  assumes "validate_ip_address s"
  shows "list_all addr_char (takeWhile (\<lambda>c. c \<noteq> CHR ''%'') s)"
proof (cases "IPv4Address s")
  case (Some a)
  then have "list_all addr_char s" by (rule IPv4Address_chars)
  then show ?thesis by (auto simp: list_all_iff dest: set_takeWhileD)
next
  case None
  with assms obtain a scope_id where "IPv6Address s = Some (a, scope_id)"
    by (auto simp: validate_ip_address_def ipaddress_ip_address_def split: option.splits)
  then obtain addr where sc: "split_scope_id s = Some (addr, scope_id)"
    and ad: "ipv6_int_from_string addr = Some a"
    by (auto simp: IPv6Address_def split: if_splits option.splits)
  from sc have "addr = takeWhile (\<lambda>c. c \<noteq> CHR ''%'') s" by (rule split_scope_id_addr)
  with ipv6_int_from_string_chars [OF ad] show ?thesis by simp
qed













section \<open>Claims about validation before enforcement\<close>

lemma not_addr_char_refused:
  assumes "\<not> list_all addr_char (takeWhile (\<lambda>c. c \<noteq> CHR ''%'') ip)"
  shows "\<not> validate_ip_address ip"
  using assms validate_ip_address_chars by blast

lemma ban_ip_accepted:
  assumes "validate_ip_address ip"
  shows "snd (ban_ip run jail ip s)
           = snd (safe_execute_command run
                    [client_path, ''set'', sanitize_input jail, ''banip'', sanitize_input ip] s)"
  using assms by (auto simp: ban_ip_def Let_def split: prod.splits)

lemma unban_ip_accepted:
  assumes "validate_ip_address ip"
  shows "snd (unban_ip run jail ip s)
           = snd (safe_execute_command run
                    [client_path, ''set'', sanitize_input jail, ''unbanip'', sanitize_input ip] s)"
  using assms by (auto simp: unban_ip_def Let_def split: prod.splits)

text \<open>
  C4, as the claim states it, fails: the string \<open>::1%;\<close> is no IP address (it holds the
  deny-list character \<open>;\<close>), but \<open>validate_ip_address\<close> accepts it as an IPv6 address
  with scope id \<open>;\<close>. So \<open>ban_ip\<close>, \<open>ban_ip_with_time\<close> and \<open>unban_ip\<close> each execute an
  enforcement command and, on the reference back end, report success. The address the
  command carries is the sanitized text \<open>::1%\<close>, which \<open>validate_ip_address\<close> itself
  refuses.
\<close>

theorem invalid_ip_enforcement_counterexample:
  "contains_char (CHR '';'') ''::1%;''
   \<and> list_ex (\<lambda>c. c = CHR '';'') dangerous_chars
   \<and> fst (ban_ip f2b_run ''sshd'' ''::1%;'' f2b_init)
       = (True, ''Successfully banned ::1% in jail sshd'')
   \<and> issued (snd (ban_ip f2b_run ''sshd'' ''::1%;'' f2b_init))
       = [[''/usr/bin/fail2ban-client'', ''set'', ''sshd'', ''banip'', ''::1%'']]
   \<and> fst (ban_ip_with_time f2b_run ''sshd'' ''::1%;'' 600 f2b_init)
       = Inr (True, ''Successfully banned ::1% for 600 seconds in jail sshd'')
   \<and> issued (snd (ban_ip_with_time f2b_run ''sshd'' ''::1%;'' 600 f2b_init))
       = [[''/usr/bin/fail2ban-client'', ''set'', ''sshd'', ''bantime'', ''600''],
          [''/usr/bin/fail2ban-client'', ''set'', ''sshd'', ''banip'', ''::1%'']]
   \<and> fst (unban_ip f2b_run ''sshd'' ''::1%;'' f2b_init)
       = (True, ''Successfully unbanned ::1% from jail sshd'')
   \<and> issued (snd (unban_ip f2b_run ''sshd'' ''::1%;'' f2b_init))
       = [[''/usr/bin/fail2ban-client'', ''set'', ''sshd'', ''unbanip'', ''::1%'']]
   \<and> \<not> validate_ip_address ''::1%''"
  by code_simp

text \<open>
  C4, amended. The test before enforcement is \<open>validate_ip_address\<close>, no more and no
  less. For an \<open>ip\<close> that it refuses, and so for every \<open>ip\<close> with a character other than
  a hexadecimal digit, a colon or a dot before its first \<open>%\<close>, the three operations return
  \<open>(False, "Invalid IP address format")\<close> and leave the system as it was: the log of
  executed commands is unchanged and the host was not touched. For an \<open>ip\<close> that it
  accepts, \<open>ban_ip\<close> and \<open>unban_ip\<close> execute exactly one command, which carries the
  sanitized text of \<open>ip\<close>.
\<close>

theorem invalid_ip_no_enforcement:
  "(\<not> validate_ip_address ip
      \<or> \<not> list_all addr_char (takeWhile (\<lambda>c. c \<noteq> CHR ''%'') ip)
    \<longrightarrow> ban_ip run jail ip s = ((False, ''Invalid IP address format''), s)
        \<and> ban_ip_with_time run jail ip d s = (Inr (False, ''Invalid IP address format''), s)
        \<and> unban_ip run jail ip s = ((False, ''Invalid IP address format''), s))
   \<and> (validate_ip_address ip
    \<longrightarrow> issued (snd (ban_ip run jail ip s))
          = issued s @ [[client_path, ''set'', sanitize_input jail, ''banip'', sanitize_input ip]]
        \<and> issued (snd (unban_ip run jail ip s))
          = issued s @ [[client_path, ''set'', sanitize_input jail, ''unbanip'', sanitize_input ip]])"
proof (intro conjI impI)
  assume "\<not> validate_ip_address ip
            \<or> \<not> list_all addr_char (takeWhile (\<lambda>c. c \<noteq> CHR ''%'') ip)"
  then have refused: "\<not> validate_ip_address ip"
    using not_addr_char_refused by blast
  from refused show "ban_ip run jail ip s = ((False, ''Invalid IP address format''), s)"
    by (simp add: ban_ip_def)
  from refused
  show "ban_ip_with_time run jail ip d s = (Inr (False, ''Invalid IP address format''), s)"
    by (simp add: ban_ip_with_time_def)
  from refused show "unban_ip run jail ip s = ((False, ''Invalid IP address format''), s)"
    by (simp add: unban_ip_def)
next
  assume ok: "validate_ip_address ip"
  then show "issued (snd (ban_ip run jail ip s))
          = issued s @ [[client_path, ''set'', sanitize_input jail, ''banip'', sanitize_input ip]]"
    by (simp add: ban_ip_accepted issued_safe_execute_command)
  from ok show "issued (snd (unban_ip run jail ip s))
          = issued s @ [[client_path, ''set'', sanitize_input jail, ''unbanip'', sanitize_input ip]]"
    by (simp add: unban_ip_accepted issued_safe_execute_command)
qed

theorem invalid_ip_no_enforcement_witness:
  "\<not> list_all addr_char (takeWhile (\<lambda>c. c \<noteq> CHR ''%'') ''1.2.3.4; reboot'')
   \<and> ban_ip f2b_run ''sshd'' ''1.2.3.4; reboot'' f2b_init
       = ((False, ''Invalid IP address format''), f2b_init)
   \<and> ban_ip_with_time f2b_run ''sshd'' ''1.2.3.4; reboot'' 600 f2b_init
       = (Inr (False, ''Invalid IP address format''), f2b_init)
   \<and> unban_ip f2b_run ''sshd'' ''1.2.3.4; reboot'' f2b_init
       = ((False, ''Invalid IP address format''), f2b_init)
   \<and> validate_ip_address ''1.2.3.4''
   \<and> issued (snd (ban_ip f2b_run ''sshd'' ''1.2.3.4'' f2b_init))
       = [[''/usr/bin/fail2ban-client'', ''set'', ''sshd'', ''banip'', ''1.2.3.4'']]
   \<and> issued (snd (unban_ip f2b_run ''sshd'' ''1.2.3.4'' f2b_init))
       = [[''/usr/bin/fail2ban-client'', ''set'', ''sshd'', ''unbanip'', ''1.2.3.4'']]"
proof -
  have h: "\<not> list_all addr_char (takeWhile (\<lambda>c. c \<noteq> CHR ''%'') ''1.2.3.4; reboot'')"
    by code_simp
  have v: "validate_ip_address ''1.2.3.4''" by code_simp
  have e: "sanitize_input ''sshd'' = ''sshd''" "sanitize_input ''1.2.3.4'' = ''1.2.3.4''"
    "issued f2b_init = []"
    by code_simp+
  from h invalid_ip_no_enforcement [of "''1.2.3.4; reboot''" f2b_run "''sshd''" f2b_init 600]
  have a: "ban_ip f2b_run ''sshd'' ''1.2.3.4; reboot'' f2b_init
             = ((False, ''Invalid IP address format''), f2b_init)
         \<and> ban_ip_with_time f2b_run ''sshd'' ''1.2.3.4; reboot'' 600 f2b_init
             = (Inr (False, ''Invalid IP address format''), f2b_init)
         \<and> unban_ip f2b_run ''sshd'' ''1.2.3.4; reboot'' f2b_init
             = ((False, ''Invalid IP address format''), f2b_init)"
    by blast
  from v invalid_ip_no_enforcement [of "''1.2.3.4''" f2b_run "''sshd''" f2b_init 600]
  have b: "issued (snd (ban_ip f2b_run ''sshd'' ''1.2.3.4'' f2b_init))
             = issued f2b_init @ [[client_path, ''set'', sanitize_input ''sshd'', ''banip'',
                                     sanitize_input ''1.2.3.4'']]
         \<and> issued (snd (unban_ip f2b_run ''sshd'' ''1.2.3.4'' f2b_init))
             = issued f2b_init @ [[client_path, ''set'', sanitize_input ''sshd'', ''unbanip'',
                                     sanitize_input ''1.2.3.4'']]"
    by blast
  from h v a b show ?thesis by (simp add: e client_path_def)
qed

end
